theory Spec2Isabelle
  imports Complex_Main
begin

section \<open>Python values used by the solar monitor\<close>

text \<open>
  The exceptions the program can meet. \<open>ConnectTimeout\<close> is, as in the requests library,
  a subclass of both \<open>ConnectionError\<close> and \<open>Timeout\<close>; \<open>ReadTimeout\<close> is a
  \<open>Timeout\<close> only. Every constructor is a subclass of Python's \<open>Exception\<close>, so a handler
  \<open>except Exception\<close> catches all of them. \<open>OtherError\<close> stands for any further exception of
  a library (the page parser, the regular expression engine, the spreadsheet client).
\<close>

datatype exn =
    ConnectionError
  | ConnectTimeout
  | ReadTimeout
  | RuntimeError string
  | ValueError
  | IndexError
  | OverflowError
  | OtherError string

definition is_ConnectionError :: "exn \<Rightarrow> bool" where
  "is_ConnectionError e = (e = ConnectionError \<or> e = ConnectTimeout)"

definition is_Timeout :: "exn \<Rightarrow> bool" where
  "is_Timeout e = (e = ConnectTimeout \<or> e = ReadTimeout)"

subsection \<open>Text\<close>

text \<open>Page text is modelled as a list of ASCII characters.\<close>

definition is_digit :: "char \<Rightarrow> bool" where
  "is_digit c = (c \<in> set ''0123456789'')"

definition digit_val :: "char \<Rightarrow> int" where
  "digit_val c = of_char c - 48"

definition decimal_val :: "string \<Rightarrow> int" where
  "decimal_val s = foldl (\<lambda>a c. 10 * a + digit_val c) 0 s"

definition is_space :: "char \<Rightarrow> bool" where
  "is_space c = (c \<in> set [CHR 0x09, CHR 0x0A, CHR 0x0B, CHR 0x0C, CHR 0x0D,
                            CHR 0x1C, CHR 0x1D, CHR 0x1E, CHR 0x1F, CHR 0x20])"

definition strip :: "string \<Rightarrow> string" where
  "strip s = rev (dropWhile is_space (rev (dropWhile is_space s)))"

text \<open>\<open>sub in s\<close> of Python: \<open>sub\<close> occurs in \<open>s\<close> as a contiguous piece.\<close>

fun str_contains :: "string \<Rightarrow> string \<Rightarrow> bool" where
  "str_contains sub [] = (sub = [])"
| "str_contains sub (c # cs) = (take (length sub) (c # cs) = sub \<or> str_contains sub cs)"

fun split_on :: "char \<Rightarrow> string \<Rightarrow> string list" where
  "split_on d [] = [[]]"
| "split_on d (c # cs) =
     (if c = d then [] # split_on d cs
      else (case split_on d cs of g # gs \<Rightarrow> (c # g) # gs | [] \<Rightarrow> [[c]]))"

text \<open>\<open>str(n)\<close> for a natural number, as \<open>"{}.{}".format(base, i)\<close> writes it.\<close>

function str_nat :: "nat \<Rightarrow> string" where
  "str_nat n = (if n < 10 then [''0123456789'' ! n]
                else str_nat (n div 10) @ [''0123456789'' ! (n mod 10)])"
  by pat_completeness auto
termination
  by (relation "measure id") auto

declare str_nat.simps [simp del]

definition str_int :: "int \<Rightarrow> string" where
  "str_int i = (if i < 0 then CHR ''-'' # str_nat (nat (- i)) else str_nat (nat i))"

subsection \<open>number_pattern\<close>

text \<open>
  \<open>number_pattern = re.compile(r"([\d.]+)")\<close>: a match is a maximal non-empty run of digits
  and full stops; \<open>findall\<close> lists the runs from left to right.
\<close>

definition number_char :: "char \<Rightarrow> bool" where
  "number_char c = (is_digit c \<or> c = CHR ''.'')"

function number_pattern_findall :: "string \<Rightarrow> string list" where
  "number_pattern_findall [] = []"
| "number_pattern_findall (c # cs) =
     (if number_char c
      then (c # takeWhile number_char cs) # number_pattern_findall (dropWhile number_char cs)
      else number_pattern_findall cs)"
  by pat_completeness auto
termination
  by (relation "measure length") (auto simp: length_dropWhile_le less_Suc_eq_le)

subsection \<open>Floats\<close>

text \<open>
  A Python float is an IEEE 754 double: a rational of the form \<open>m * 2^e\<close> with
  \<open>|m| < 2^53\<close>, or an infinity. (No operation of this program produces a NaN.)
  \<open>double_of_rat\<close> rounds a rational to the nearest double, ties to even, as the
  conversion of a decimal literal and the multiplication of two doubles do.
\<close>

datatype pyfloat = Finite rat | PosInf | NegInf

definition pow2 :: "int \<Rightarrow> rat" where
  "pow2 k = (if 0 \<le> k then 2 ^ nat k else 1 / 2 ^ nat (- k))"

text \<open>The number of binary digits of a positive integer.\<close>

function bit_length :: "int \<Rightarrow> int" where
  "bit_length n = (if n \<le> 0 then 0 else 1 + bit_length (n div 2))"
  by pat_completeness auto
termination
  by (relation "measure nat") auto

declare bit_length.simps [simp del]

text \<open>For \<open>q > 0\<close>, \<open>ilog2 q\<close> is the \<open>e\<close> with \<open>2^e \<le> q < 2^(e+1)\<close>.\<close>

definition ilog2 :: "rat \<Rightarrow> int" where
  "ilog2 q = (if 1 \<le> q then bit_length \<lfloor>q\<rfloor> - 1 else - bit_length (\<lceil>1 / q\<rceil> - 1))"

definition round_half_even :: "rat \<Rightarrow> int" where
  "round_half_even q =
     (let f = \<lfloor>q\<rfloor>; r = q - of_int f
      in if r < 1 / 2 then f else if 1 / 2 < r then f + 1
         else if even f then f else f + 1)"

definition double_of_rat :: "rat \<Rightarrow> pyfloat" where
  "double_of_rat q =
     (if q = 0 then Finite 0
      else
        let a = \<bar>q\<bar>;
            e = max (ilog2 a) (- 1022);
            ulp = pow2 (e - 52);
            v = of_int (round_half_even (a / ulp)) * ulp
        in if pow2 1024 \<le> v then (if 0 < q then PosInf else NegInf)
           else Finite (if 0 < q then v else - v))"

text \<open>\<open>x * 1000\<close> on a float \<open>x\<close>.\<close>

definition float_times_1000 :: "pyfloat \<Rightarrow> pyfloat" where
  "float_times_1000 x =
     (case x of Finite q \<Rightarrow> double_of_rat (q * 1000) | PosInf \<Rightarrow> PosInf | NegInf \<Rightarrow> NegInf)"

text \<open>\<open>int(x)\<close> on a float: truncation towards zero; an infinity raises \<open>OverflowError\<close>.\<close>

definition int_of_float :: "pyfloat \<Rightarrow> exn + int" where
  "int_of_float x =
     (case x of
        Finite q \<Rightarrow> Inr (if 0 \<le> q then \<lfloor>q\<rfloor> else \<lceil>q\<rceil>)
      | PosInf \<Rightarrow> Inl OverflowError
      | NegInf \<Rightarrow> Inl OverflowError)"

definition float_nonneg :: "pyfloat \<Rightarrow> bool" where
  "float_nonneg x = (case x of Finite q \<Rightarrow> 0 \<le> q | PosInf \<Rightarrow> True | NegInf \<Rightarrow> False)"

text \<open>
  \<open>float(s)\<close> on the strings \<open>number_pattern\<close> can match, that is on non-empty runs of
  digits and full stops: digits with at most one full stop and at least one digit denote
  a decimal number; everything else raises \<open>ValueError\<close>. (Signs, exponents and blanks,
  which \<open>float\<close> accepts as well, cannot occur in a match.)
\<close>

definition py_float :: "string \<Rightarrow> exn + pyfloat" where
  "py_float s =
     (let ip = takeWhile is_digit s; rest = dropWhile is_digit s
      in case rest of
           [] \<Rightarrow> if ip = [] then Inl ValueError
                 else Inr (double_of_rat (of_int (decimal_val ip)))
         | c # fr \<Rightarrow>
             if c = CHR ''.'' \<and> list_all is_digit fr \<and> (ip \<noteq> [] \<or> fr \<noteq> [])
             then Inr (double_of_rat (of_int (decimal_val (ip @ fr)) / 10 ^ length fr))
             else Inl ValueError)"

text \<open>
  \<open>int(s)\<close> on a string: blanks around it are dropped, one sign is allowed, and the
  digits may be grouped by single underscores; anything else raises \<open>ValueError\<close>.
\<close>

definition py_int :: "string \<Rightarrow> exn + int" where
  "py_int s =
     (let t = strip s;
          neg = (t \<noteq> [] \<and> hd t = CHR ''-'');
          body = (if t \<noteq> [] \<and> (hd t = CHR ''-'' \<or> hd t = CHR ''+'') then tl t else t);
          groups = split_on (CHR ''_'') body
      in if list_all (\<lambda>g. g \<noteq> [] \<and> list_all is_digit g) groups
         then Inr ((if neg then - 1 else 1) * decimal_val (concat groups))
         else Inl ValueError)"

section \<open>The environment\<close>

text \<open>
  Everything outside the program is an oracle, read at the moment of the call; the moment
  is the number of effects the program has had so far. \<open>net\<close> is \<open>requests.get\<close> (the URL
  and the timeout in seconds, when one is given), \<open>clock\<close> is \<open>datetime.datetime.now()\<close>,
  \<open>xpath p t\<close> is \<open>html.fromstring(t).xpath(p)\<close>, \<open>re_search\<close> is \<open>re.search\<close> reduced to
  whether there is a match, and \<open>update_row\<close> is the spreadsheet client's method of that
  name, which either returns or raises.
\<close>

record response =
  status_code :: nat
  resp_text :: string

record datetime =
  hour :: nat
  minute :: nat
  second :: nat

datatype level = DEBUG | INFO | WARNING | ERROR

datatype event =
    Get string "nat option"
  | Log level string
  | Sleep nat
  | Now
  | UpdateRow int int pyfloat

record env =
  net :: "nat \<Rightarrow> string \<Rightarrow> nat option \<Rightarrow> exn + response"
  clock :: "nat \<Rightarrow> datetime"
  xpath :: "string \<Rightarrow> string \<Rightarrow> exn + string list"
  re_search :: "string \<Rightarrow> string \<Rightarrow> exn + bool"
  update_row :: "nat \<Rightarrow> int \<Rightarrow> int \<Rightarrow> pyfloat \<Rightarrow> exn option"

text \<open>
  The fields of a \<open>SolarReader\<close> object, and the program state: the reader together with
  the trace of the effects so far, oldest first.
\<close>

record SolarReader =
  tag :: string
  base_ip_range :: string
  using_static_ip :: bool
  ip_address :: string

record state = SolarReader +
  trace :: "event list"

definition moment :: "state \<Rightarrow> nat" where
  "moment w = length (trace w)"

definition emit :: "event \<Rightarrow> state \<Rightarrow> state" where
  "emit ev w = w\<lparr>trace := trace w @ [ev]\<rparr>"

definition log_debug :: "string \<Rightarrow> state \<Rightarrow> state" where
  "log_debug msg w = emit (Log DEBUG msg) w"

definition log_info :: "string \<Rightarrow> state \<Rightarrow> state" where
  "log_info msg w = emit (Log INFO msg) w"

definition log_warning :: "string \<Rightarrow> state \<Rightarrow> state" where
  "log_warning msg w = emit (Log WARNING msg) w"

definition log_error :: "string \<Rightarrow> state \<Rightarrow> state" where
  "log_error msg w = emit (Log ERROR msg) w"

text \<open>\<open>log.exception\<close> writes its message at level ERROR.\<close>

definition log_exception :: "string \<Rightarrow> state \<Rightarrow> state" where
  "log_exception msg w = emit (Log ERROR msg) w"

definition sleep :: "nat \<Rightarrow> state \<Rightarrow> state" where
  "sleep n w = emit (Sleep n) w"

definition requests_get :: "env \<Rightarrow> string \<Rightarrow> nat option \<Rightarrow> state \<Rightarrow> (exn + response) \<times> state" where
  "requests_get E url tmo w = (net E (moment w) url tmo, emit (Get url tmo) w)"

section \<open>solar_reader.py\<close>

subsection \<open>get_ip_address\<close>

text \<open>
  The body of the \<open>try\<close> in the scan: the request with its timeout of two seconds, then
  the search for the tag in the text of the response.
\<close>

definition probe :: "env \<Rightarrow> string \<Rightarrow> state \<Rightarrow> (exn + bool) \<times> state" where
  "probe E ip w =
     (case requests_get E (''http://'' @ ip) (Some 2) w of
        (Inl e, w1) \<Rightarrow> (Inl e, w1)
      | (Inr r, w1) \<Rightarrow> (re_search E (tag w1) (resp_text r), w1))"

definition candidate :: "state \<Rightarrow> nat \<Rightarrow> string" where
  "candidate w i = base_ip_range w @ ''.'' @ str_nat i"

text \<open>
  The \<open>for\<close> loop over the candidates still to try. Falling off its end is Python's
  implicit \<open>return None\<close>.
\<close>

fun scan :: "env \<Rightarrow> nat list \<Rightarrow> state \<Rightarrow> (exn + string option) \<times> state" where
  "scan E [] w = (Inr None, w)"
| "scan E (i # rest) w =
     (case probe E (candidate w i) w of
        (Inr found, w1) \<Rightarrow> if found then (Inr (Some (candidate w i)), w1) else scan E rest w1
      | (Inl e, w1) \<Rightarrow>
          if is_ConnectionError e \<or> is_Timeout e then scan E rest w1 else (Inl e, w1))"

definition get_ip_address :: "env \<Rightarrow> state \<Rightarrow> (exn + string option) \<times> state" where
  "get_ip_address E w =
     (if using_static_ip w then (Inr (Some (ip_address w)), w)
      else scan E [0..<256] w)"

subsection \<open>get_response\<close>

definition get_response :: "env \<Rightarrow> string \<Rightarrow> state \<Rightarrow> (exn + response) \<times> state" where
  "get_response E path w =
     (case requests_get E (''http://'' @ ip_address w @ path) None w of
        (Inr r, w1) \<Rightarrow> (Inr r, w1)
      | (Inl e, w1) \<Rightarrow>
          if \<not> is_ConnectionError e then (Inl e, w1)
          else if using_static_ip w1 then (Inl e, w1)
          else
            (case get_ip_address E w1 of
               (Inl e2, w2) \<Rightarrow> (Inl e2, w2)
             | (Inr None, w2) \<Rightarrow> (Inl (RuntimeError ''A seemingly valid IP address failed.''), w2)
             | (Inr (Some new_ip), w2) \<Rightarrow>
                 requests_get E (''http://'' @ new_ip @ path) None
                   (log_info (''IP address updated to '' @ new_ip @ ''.'')
                      (w2\<lparr>ip_address := new_ip\<rparr>))))"

subsection \<open>solar_panels_accessible and the constructor\<close>

definition solar_panels_accessible :: "env \<Rightarrow> state \<Rightarrow> (exn + bool) \<times> state" where
  "solar_panels_accessible E w =
     (case get_response E ''/'' (log_info ''Determining connection to solar system...'' w) of
        (Inr r, w1) \<Rightarrow> (Inr (status_code r = 200), log_info ''Connected successfully'' w1)
      | (Inl e, w1) \<Rightarrow>
          if is_ConnectionError e
          then (Inl e, log_exception
                  ''Error: Can't connect to the solar array. Check the POE connection, or the status on the box.'' w1)
          else (Inl e, w1))"

text \<open>
  \<open>SolarReader(tag, base_ip_range, static_ip)\<close>, started with the trace \<open>tr\<close>. An absent
  and an empty \<open>static_ip\<close> are both false for \<open>bool\<close>. The address found by the scan is
  stored only when there is one: with \<open>None\<close> the constructor raises at once, so that no
  constructed reader lacks an address.
\<close>

definition SolarReader_init ::
  "env \<Rightarrow> string \<Rightarrow> string \<Rightarrow> string option \<Rightarrow> event list \<Rightarrow> (exn + unit) \<times> state" where
  "SolarReader_init E tg base static_ip tr =
     (let w0 = \<lparr>tag = tg, base_ip_range = base,
                using_static_ip = (static_ip \<noteq> None \<and> static_ip \<noteq> Some []),
                ip_address = [], trace = tr\<rparr>;
          found = (\<lambda>w. (Inr (), log_info (''Found solar device at IP address '' @ ip_address w) w))
      in if using_static_ip w0
         then
           (case solar_panels_accessible E (w0\<lparr>ip_address := the static_ip\<rparr>) of
              (Inl e, w1) \<Rightarrow> (Inl e, w1)
            | (Inr ok, w1) \<Rightarrow>
                if \<not> ok
                then (Inl (RuntimeError ''Static IP was specified but connection could not be made.''), w1)
                else found w1)
         else
           (case get_ip_address E (log_info ''Searching for IP address.'' w0) of
              (Inl e, w1) \<Rightarrow> (Inl e, w1)
            | (Inr None, w1) \<Rightarrow>
                (Inl (RuntimeError ''Connection could not be established to solar device.''), w1)
            | (Inr (Some ip), w1) \<Rightarrow> found (w1\<lparr>ip_address := ip\<rparr>)))"

subsection \<open>The three readings\<close>

text \<open>\<open>html.fromstring(page.text).xpath(p)\<close> followed by \<open>data[0]\<close>.\<close>

definition first_text :: "env \<Rightarrow> string \<Rightarrow> response \<Rightarrow> exn + string" where
  "first_text E p page =
     (case xpath E p (resp_text page) of
        Inl e \<Rightarrow> Inl e
      | Inr data \<Rightarrow> (case data of [] \<Rightarrow> Inl IndexError | d0 # _ \<Rightarrow> Inr d0))"

text \<open>\<open>float(match[0])\<close> for \<open>match = number_pattern.findall(d)\<close>.\<close>

definition float_of_first_match :: "string \<Rightarrow> exn + pyfloat" where
  "float_of_first_match d =
     (case number_pattern_findall d of [] \<Rightarrow> Inl IndexError | m0 # _ \<Rightarrow> py_float m0)"

definition get_wh_production :: "env \<Rightarrow> state \<Rightarrow> (exn + int) \<times> state" where
  "get_wh_production E w =
     (case get_response E ''/production'' w of
        (Inl e, w1) \<Rightarrow> (Inl e, w1)
      | (Inr page, w1) \<Rightarrow>
          (case first_text E ''/html/body/div[1]/table/tr[3]/td[2]/text()'' page of
             Inl e \<Rightarrow> (Inl e, w1)
           | Inr d \<Rightarrow>
               (case float_of_first_match d of
                  Inl e \<Rightarrow>
                    if e = ValueError then (Inr 0, log_exception ''Couldn't convert to float'' w1)
                    else (Inl e, w1)
                | Inr data_float \<Rightarrow>
                    (int_of_float
                       (if str_contains ''kW'' d then float_times_1000 data_float else data_float),
                     w1))))"

text \<open>
  On the \<open>ValueError\<close> path the source returns the integer \<open>0\<close>, which Python does not
  distinguish from the float \<open>0.0\<close> in comparisons and arithmetic; it is \<open>Finite 0\<close> here.
\<close>

definition get_current_watt_production :: "env \<Rightarrow> state \<Rightarrow> (exn + pyfloat) \<times> state" where
  "get_current_watt_production E w =
     (case get_response E ''/production'' w of
        (Inl e, w1) \<Rightarrow> (Inl e, w1)
      | (Inr page, w1) \<Rightarrow>
          (case first_text E ''/html/body/div[1]/table/tr[2]/td[2]/text()'' page of
             Inl e \<Rightarrow> (Inl e, w1)
           | Inr d \<Rightarrow>
               (case float_of_first_match d of
                  Inl e \<Rightarrow>
                    if e = ValueError then (Inr (Finite 0), log_exception ''Couldn't convert to float'' w1)
                    else (Inl e, w1)
                | Inr data_float \<Rightarrow>
                    (Inr (if str_contains ''kW'' d then float_times_1000 data_float else data_float),
                     w1))))"

definition get_mi_online :: "env \<Rightarrow> state \<Rightarrow> (exn + int) \<times> state" where
  "get_mi_online E w =
     (case get_response E ''/home'' (log_info ''Determining current solar cell status...'' w) of
        (Inl e, w1) \<Rightarrow> (Inl e, w1)
      | (Inr page, w1) \<Rightarrow>
          (case first_text E ''/html/body/table/tr/td[2]/table/tr[5]/td[2]/text()'' page of
             Inl e \<Rightarrow> (Inl e, w1)
           | Inr d \<Rightarrow>
               (case py_int d of
                  Inl e \<Rightarrow> (Inl e, w1)
                | Inr mi_online \<Rightarrow>
                    (Inr mi_online,
                     log_debug (str_int mi_online @ '' out of 24 microinverters online'') w1))))"

definition is_online :: "env \<Rightarrow> state \<Rightarrow> (exn + bool) \<times> state" where
  "is_online E w =
     (case get_mi_online E w of
        (Inl e, w1) \<Rightarrow> (Inl e, w1)
      | (Inr n, w1) \<Rightarrow> (Inr (0 < n), w1))"

section \<open>runner.py\<close>

text \<open>
  \<open>SolarData\<close> holds the reader, the spreadsheet client and a field \<open>state\<close> that is set to
  \<open>SUNRISE_WAIT\<close> by the constructor and neither read nor written afterwards; the phases
  of the program are the functions it is in.
\<close>

definition is_past_noon :: "env \<Rightarrow> state \<Rightarrow> bool \<times> state" where
  "is_past_noon E w = (12 < hour (clock E (moment w)), emit Now w)"

text \<open>
  A computation that may raise and may run forever: \<open>None\<close> is not returning.
\<close>

definition and_then ::
  "((exn + 'a) \<times> state) option \<Rightarrow> ('a \<Rightarrow> state \<Rightarrow> ((exn + 'b) \<times> state) option)
     \<Rightarrow> ((exn + 'b) \<times> state) option" where
  "and_then m f =
     (case m of
        None \<Rightarrow> None
      | Some (Inl e, w) \<Rightarrow> Some (Inl e, w)
      | Some (Inr x, w) \<Rightarrow> f x w)"

subsection \<open>wait_on_sunrise\<close>

partial_function (option) wait_on_sunrise_loop :: "env \<Rightarrow> state \<Rightarrow> ((exn + unit) \<times> state) option" where
  "wait_on_sunrise_loop E w =
     (case is_online E w of
        (Inl e, w1) \<Rightarrow> Some (Inl e, w1)
      | (Inr on, w1) \<Rightarrow>
          if \<not> on then wait_on_sunrise_loop E (sleep 600 w1) else Some (Inr (), w1))"

definition wait_on_sunrise :: "env \<Rightarrow> state \<Rightarrow> ((exn + unit) \<times> state) option" where
  "wait_on_sunrise E w = wait_on_sunrise_loop E (log_info ''Waiting for sunrise...'' w)"

subsection \<open>main_loop\<close>

text \<open>The loop condition \<open>is_online() or not is_past_noon()\<close>; \<open>or\<close> reads the clock
  only when the reader is not online.\<close>

definition main_loop_cond :: "env \<Rightarrow> state \<Rightarrow> (exn + bool) \<times> state" where
  "main_loop_cond E w =
     (case is_online E w of
        (Inl e, w1) \<Rightarrow> (Inl e, w1)
      | (Inr on, w1) \<Rightarrow>
          if on then (Inr True, w1)
          else (case is_past_noon E w1 of (pn, w2) \<Rightarrow> (Inr (\<not> pn), w2)))"

text \<open>The first statement of the body, before the \<open>try\<close>: \<open>and\<close> asks the reader only when
  it is not past noon.\<close>

definition morning_check :: "env \<Rightarrow> state \<Rightarrow> (exn + unit) \<times> state" where
  "morning_check E w =
     (case is_past_noon E w of
        (pn, w1) \<Rightarrow>
          if pn then (Inr (), w1)
          else
            (case is_online E w1 of
               (Inl e, w2) \<Rightarrow> (Inl e, w2)
             | (Inr on, w2) \<Rightarrow>
                 (Inr (),
                  if \<not> on
                  then log_error ''Solar system shows as offline yet it is still morning.'' w2
                  else w2)))"

definition sheet_update_row :: "env \<Rightarrow> int \<Rightarrow> int \<Rightarrow> pyfloat \<Rightarrow> state \<Rightarrow> (exn + unit) \<times> state" where
  "sheet_update_row E cur_wh cur_mis cur_watts w =
     ((case update_row E (moment w) cur_wh cur_mis cur_watts of
         None \<Rightarrow> Inr ()
       | Some e \<Rightarrow> Inl e),
      emit (UpdateRow cur_wh cur_mis cur_watts) w)"

text \<open>The body of the \<open>try\<close>.\<close>

definition poll :: "env \<Rightarrow> state \<Rightarrow> (exn + unit) \<times> state" where
  "poll E w =
     (case get_wh_production E w of
        (Inl e, w1) \<Rightarrow> (Inl e, w1)
      | (Inr cur_wh, w1) \<Rightarrow>
          (case get_mi_online E w1 of
             (Inl e, w2) \<Rightarrow> (Inl e, w2)
           | (Inr cur_mis, w2) \<Rightarrow>
               (case get_current_watt_production E w2 of
                  (Inl e, w3) \<Rightarrow> (Inl e, w3)
                | (Inr cur_watts, w3) \<Rightarrow> sheet_update_row E cur_wh cur_mis cur_watts w3)))"

text \<open>One pass through the body: the morning check, then \<open>try\<close>, \<open>except Exception\<close>
  and \<open>finally\<close>.\<close>

definition main_loop_body :: "env \<Rightarrow> state \<Rightarrow> (exn + unit) \<times> state" where
  "main_loop_body E w =
     (case morning_check E w of
        (Inl e, w1) \<Rightarrow> (Inl e, w1)
      | (Inr u, w1) \<Rightarrow>
          (case poll E w1 of
             (Inl e, w2) \<Rightarrow>
               (Inr (), sleep 600 (log_exception ''An exception occurred in the main loop.'' w2))
           | (Inr u2, w2) \<Rightarrow> (Inr (), sleep 600 w2)))"

partial_function (option) main_loop_while :: "env \<Rightarrow> state \<Rightarrow> ((exn + unit) \<times> state) option" where
  "main_loop_while E w =
     (case main_loop_cond E w of
        (Inl e, w1) \<Rightarrow> Some (Inl e, w1)
      | (Inr continue, w1) \<Rightarrow>
          if continue
          then (case main_loop_body E w1 of
                  (Inl e, w2) \<Rightarrow> Some (Inl e, w2)
                | (Inr u, w2) \<Rightarrow> main_loop_while E w2)
          else Some (Inr (), w1))"

text \<open>
  The state in which the loop condition is evaluated for the time number \<open>k\<close> (counted
  from 0) of a loop started in \<open>w\<close>: the \<open>k\<close> evaluations before it all said to go on, and
  every pass through the body in between came back. \<open>None\<close> when the loop does not get
  that far.
\<close>

fun nth_check :: "nat \<Rightarrow> env \<Rightarrow> state \<Rightarrow> state option" where
  "nth_check 0 E w = Some w"
| "nth_check (Suc k) E w =
     (case main_loop_cond E w of
        (Inl e, w1) \<Rightarrow> None
      | (Inr continue, w1) \<Rightarrow>
          if continue
          then (case main_loop_body E w1 of
                  (Inl e, w2) \<Rightarrow> None
                | (Inr u, w2) \<Rightarrow> nth_check k E w2)
          else None)"

definition main_loop :: "env \<Rightarrow> state \<Rightarrow> ((exn + unit) \<times> state) option" where
  "main_loop E w =
     and_then (main_loop_while E (log_info ''Entering main loop'' w))
       (\<lambda>u w1. Some (Inr (), log_info ''Solar system is offline. Signing off for the night.'' w1))"

subsection \<open>run\<close>

definition run :: "env \<Rightarrow> state \<Rightarrow> ((exn + unit) \<times> state) option" where
  "run E w =
     and_then
       (case is_online E (log_info ''Started, initializing...'' w) of
          (Inl e, w1) \<Rightarrow> Some (Inl e, w1)
        | (Inr on, w1) \<Rightarrow>
            if on then main_loop E (log_info ''Solar system online on startup.'' w1)
            else
              (case is_past_noon E w1 of
                 (pn, w2) \<Rightarrow>
                   if \<not> pn
                   then and_then (wait_on_sunrise E w2)
                          (\<lambda>u w3. main_loop E
                             (log_info ''Microinverters have started, seems like sunrise. Main loop starting.'' w3))
                   else Some (Inr (), log_warning ''Program was started after sunset. Shutting down.'' w2)))
       (\<lambda>u w4. Some (Inr (), log_info ''Run call ending, program terminating.'' w4))"

section \<open>A small device\<close>

text \<open>
  A device at 10.0.0.5 that serves a home page and a production page, for evaluating the
  program on concrete inputs. Its pages are reduced to their cells: the home page is the
  cell of the inverter count, the production page is the cell of the current power, a
  semicolon, and the cell of the energy of the day. Every other address refuses the
  connection.
\<close>

definition cell_xpath :: "string \<Rightarrow> string \<Rightarrow> exn + string list" where
  "cell_xpath p t =
     (if p = ''/html/body/div[1]/table/tr[3]/td[2]/text()'' then Inr (drop 1 (split_on (CHR '';'') t))
      else if p = ''/html/body/div[1]/table/tr[2]/td[2]/text()'' then Inr (take 1 (split_on (CHR '';'') t))
      else Inr [t])"

definition varying_env :: "(nat \<Rightarrow> string) \<Rightarrow> string \<Rightarrow> (nat \<Rightarrow> nat) \<Rightarrow> env" where
  "varying_env home production h =
     \<lparr>net = (\<lambda>m url tmo.
              if url = ''http://10.0.0.5/home'' then Inr \<lparr>status_code = 200, resp_text = home m\<rparr>
              else if url = ''http://10.0.0.5/production''
                   then Inr \<lparr>status_code = 200, resp_text = production\<rparr>
              else if url = ''http://10.0.0.5'' \<or> url = ''http://10.0.0.5/''
                   then Inr \<lparr>status_code = 200, resp_text = ''enphase''\<rparr>
              else Inl ConnectionError),
      clock = (\<lambda>m. \<lparr>hour = h m, minute = 59, second = 59\<rparr>),
      xpath = cell_xpath,
      re_search = (\<lambda>tg t. Inr (str_contains tg t)),
      update_row = (\<lambda>m cur_wh cur_mis cur_watts. None)\<rparr>"

text \<open>The same device when its home page and the hour do not change.\<close>

definition device_env :: "string \<Rightarrow> string \<Rightarrow> nat \<Rightarrow> env" where
  "device_env home production h = varying_env (\<lambda>m. home) production (\<lambda>m. h)"

text \<open>The device after it has moved to 10.0.0.1, and a network on which nothing answers.\<close>

definition moved_env :: "string \<Rightarrow> env" where
  "moved_env home =
     \<lparr>net = (\<lambda>m url tmo.
              if url = ''http://10.0.0.1/home'' then Inr \<lparr>status_code = 200, resp_text = home\<rparr>
              else if url = ''http://10.0.0.1''
                   then Inr \<lparr>status_code = 200, resp_text = ''enphase''\<rparr>
              else Inl ConnectionError),
      clock = (\<lambda>m. \<lparr>hour = 10, minute = 0, second = 0\<rparr>),
      xpath = cell_xpath,
      re_search = (\<lambda>tg t. Inr (str_contains tg t)),
      update_row = (\<lambda>m cur_wh cur_mis cur_watts. None)\<rparr>"

definition dead_env :: env where
  "dead_env =
     \<lparr>net = (\<lambda>m url tmo. Inl ConnectionError),
      clock = (\<lambda>m. \<lparr>hour = 10, minute = 0, second = 0\<rparr>),
      xpath = cell_xpath,
      re_search = (\<lambda>tg t. Inr (str_contains tg t)),
      update_row = (\<lambda>m cur_wh cur_mis cur_watts. None)\<rparr>"

text \<open>
  Days of the device at 10.0.0.5. At dusk no inverter is online, and the clock passes
  noon between the first and the second evaluation of the loop condition. On the full
  day the inverters come online during the wait for sunrise and go offline after noon.
  On the late start the inverters are online at startup and offline, after noon, at the
  first evaluation of the loop condition.
\<close>

definition dusk_env :: env where
  "dusk_env = varying_env (\<lambda>m. ''0'') ''850 W;1.5 kW'' (\<lambda>m. if m < 10 then 10 else 13)"

definition day_env :: env where
  "day_env = varying_env (\<lambda>m. if m < 10 then ''0'' else if m < 30 then ''3'' else ''0'')
               ''850 W;1.5 kW'' (\<lambda>m. if m < 30 then 10 else 13)"

definition late_env :: env where
  "late_env = varying_env (\<lambda>m. if m < 5 then ''5'' else ''0'') ''850 W;1.5 kW'' (\<lambda>m. 13)"

text \<open>The effects of reading the inverter count \<open>c\<close> from the home page of that device.\<close>

definition read_count :: "string \<Rightarrow> event list" where
  "read_count c =
     [Log INFO ''Determining current solar cell status...'',
      Get ''http://10.0.0.5/home'' None,
      Log DEBUG (c @ '' out of 24 microinverters online'')]"

text \<open>The effects of one pass through the body of the loop in the morning, on that
  device, with no inverter online and a production page of 850 W and 1.5 kW.\<close>

definition morning_pass :: "event list" where
  "morning_pass =
     Now # read_count ''0'' @
     [Log ERROR ''Solar system shows as offline yet it is still morning.'',
      Get ''http://10.0.0.5/production'' None] @ read_count ''0'' @
     [Get ''http://10.0.0.5/production'' None, UpdateRow 1500 0 (Finite 850), Sleep 600]"

text \<open>The effects of a whole run on the full day, on the late start, and on a start
  after sunset with no inverter online.\<close>

definition day_trace :: "event list" where
  "day_trace =
     Log INFO ''Started, initializing...'' # read_count ''0'' @
     [Now, Log INFO ''Waiting for sunrise...''] @ read_count ''0'' @ Sleep 600 # read_count ''3'' @
     [Log INFO ''Microinverters have started, seems like sunrise. Main loop starting.'',
      Log INFO ''Entering main loop''] @ read_count ''3'' @
     Now # read_count ''3'' @ Get ''http://10.0.0.5/production'' None # read_count ''3'' @
     [Get ''http://10.0.0.5/production'' None, UpdateRow 1500 3 (Finite 850), Sleep 600] @
     read_count ''0'' @
     [Now, Log INFO ''Solar system is offline. Signing off for the night.'',
      Log INFO ''Run call ending, program terminating.'']"

definition late_trace :: "event list" where
  "late_trace =
     Log INFO ''Started, initializing...'' # read_count ''5'' @
     [Log INFO ''Solar system online on startup.'', Log INFO ''Entering main loop''] @
     read_count ''0'' @
     [Now, Log INFO ''Solar system is offline. Signing off for the night.'',
      Log INFO ''Run call ending, program terminating.'']"

definition night_trace :: "event list" where
  "night_trace =
     Log INFO ''Started, initializing...'' # read_count ''0'' @
     [Now, Log WARNING ''Program was started after sunset. Shutting down.'',
      Log INFO ''Run call ending, program terminating.'']"

text \<open>A day on which the home page stops showing a number after one pass through the
  body of the loop, in the afternoon.\<close>

definition glitch_env :: env where
  "glitch_env = varying_env (\<lambda>m. if m < 12 then ''5'' else ''n/a'') ''850 W;1.5 kW'' (\<lambda>m. 13)"

text \<open>A reader in scan mode and a reader in static mode, both with the address 10.0.0.5.\<close>

definition reader_at :: "event list \<Rightarrow> state" where
  "reader_at tr = \<lparr>tag = ''enphase'', base_ip_range = ''10.0.0'', using_static_ip = False,
                   ip_address = ''10.0.0.5'', trace = tr\<rparr>"

definition static_reader_at :: "event list \<Rightarrow> state" where
  "static_reader_at tr = \<lparr>tag = ''enphase'', base_ip_range = ''10.0.0'', using_static_ip = True,
                   ip_address = ''10.0.0.5'', trace = tr\<rparr>"

section \<open>The scan seen from its start\<close>

text \<open>
  For a scan started in the state \<open>w\<close>: the outcome of its probe number \<open>i\<close> (counted
  from 0), which is made at the moment \<open>moment w + i\<close> since every probe is one effect;
  whether an outcome lets the scan go on to the next candidate; the requests of the first
  \<open>n\<close> probes; and the state after them.
\<close>

definition probe_outcome :: "env \<Rightarrow> state \<Rightarrow> nat \<Rightarrow> exn + bool" where
  "probe_outcome E w i =
     (case net E (moment w + i) (''http://'' @ candidate w i) (Some 2) of
        Inl e \<Rightarrow> Inl e
      | Inr r \<Rightarrow> re_search E (tag w) (resp_text r))"

definition skipped :: "exn + bool \<Rightarrow> bool" where
  "skipped r = (case r of Inr found \<Rightarrow> \<not> found | Inl e \<Rightarrow> is_ConnectionError e \<or> is_Timeout e)"

definition probes :: "state \<Rightarrow> nat \<Rightarrow> event list" where
  "probes w n = map (\<lambda>i. Get (''http://'' @ candidate w i) (Some 2)) [0..<n]"

definition after_probes :: "state \<Rightarrow> nat \<Rightarrow> state" where
  "after_probes w n = w\<lparr>trace := trace w @ probes w n\<rparr>"

section \<open>Properties of the readings\<close>

subsection \<open>Numbers read from text are not negative\<close>

lemma is_digit_val_nonneg: "is_digit c \<Longrightarrow> 0 \<le> digit_val c"
  by (auto simp: is_digit_def digit_val_def)

lemma decimal_val_snoc: "decimal_val (s @ [c]) = 10 * decimal_val s + digit_val c"
  by (simp add: decimal_val_def)

lemma decimal_val_nonneg: "list_all is_digit s \<Longrightarrow> 0 \<le> decimal_val s"
proof (induction s rule: rev_induct)
  case Nil
  show ?case by (simp add: decimal_val_def)
next
  case (snoc c s)
  then have "0 \<le> decimal_val s" "0 \<le> digit_val c"
    by (simp_all add: is_digit_val_nonneg)
  then show ?case by (simp add: decimal_val_snoc)
qed

text \<open>\<open>bit_length\<close> and \<open>ilog2\<close> compute what their names say.\<close>

lemma bit_length_nonneg: "0 \<le> bit_length n"
proof (induction n rule: bit_length.induct)
  case (1 n)
  show ?case
  proof (cases "n \<le> 0")
    case True
    then show ?thesis by (subst bit_length.simps) simp
  next
    case False
    with 1 have "0 \<le> bit_length (n div 2)" by simp
    with False show ?thesis by (subst bit_length.simps) simp
  qed
qed

lemma bit_length_step: "0 < n \<Longrightarrow> bit_length n = 1 + bit_length (n div 2)"
  by (subst bit_length.simps) simp

lemma bit_length_pos: "0 < n \<Longrightarrow> 0 < bit_length n"
  using bit_length_nonneg [of "n div 2"] by (simp add: bit_length_step)

lemma bit_length_bounds:
  "0 < n \<Longrightarrow> 2 ^ nat (bit_length n - 1) \<le> n \<and> n < 2 ^ nat (bit_length n)"
proof (induction n rule: bit_length.induct)
  case (1 n)
  from 1(2) have bl: "bit_length n = 1 + bit_length (n div 2)" by (rule bit_length_step)
  show ?case
  proof (cases "n = 1")
    case True
    have "bit_length (0::int) = 0" by (subst bit_length.simps) simp
    with True bl show ?thesis by simp
  next
    case False
    with 1(2) have h: "0 < n div 2" by simp
    with 1 have IH: "2 ^ nat (bit_length (n div 2) - 1) \<le> n div 2"
      "n div 2 < 2 ^ nat (bit_length (n div 2))"
      by simp_all
    have pos: "0 < bit_length (n div 2)" using h by (rule bit_length_pos)
    then have e: "nat (bit_length (n div 2)) = Suc (nat (bit_length (n div 2) - 1))" by simp
    have d: "2 * (n div 2) \<le> n" "n < 2 * (n div 2) + 2" by presburger+
    from IH(1) d(1) have lo: "2 * 2 ^ nat (bit_length (n div 2) - 1) \<le> n" by linarith
    from IH(2) have "n div 2 + 1 \<le> 2 ^ nat (bit_length (n div 2))" by simp
    with d(2) have hi: "n < 2 * 2 ^ nat (bit_length (n div 2))" by linarith
    have e2: "nat (1 + bit_length (n div 2)) = Suc (Suc (nat (bit_length (n div 2) - 1)))"
      "nat (1 + bit_length (n div 2) - 1) = Suc (nat (bit_length (n div 2) - 1))"
      using pos by simp_all
    from lo hi show ?thesis
      unfolding bl e2 e by simp
  qed
qed


lemma pow2_of_nat: "0 \<le> k \<Longrightarrow> pow2 k = 2 ^ nat k"
  by (simp add: pow2_def)

lemma pow2_add: "pow2 (a + b) = pow2 a * pow2 b"
proof -
  have "pow2 k = 2 powi k" for k
    by (simp add: pow2_def power_int_def field_simps)
  then show ?thesis by (simp add: power_int_add)
qed

lemma pow2_neg: "pow2 (- k) = 1 / pow2 k"
  using pow2_add [of k "- k"] by (simp add: pow2_def field_simps split: if_splits)

lemma ilog2_bounds:
  assumes "0 < q"
  shows "pow2 (ilog2 q) \<le> q \<and> q < pow2 (ilog2 q + 1)"
proof (cases "1 \<le> q")
  case True
  then have f: "0 < \<lfloor>q\<rfloor>" by simp
  from bit_length_bounds [OF f]
  have lo: "2 ^ nat (bit_length \<lfloor>q\<rfloor> - 1) \<le> \<lfloor>q\<rfloor>" and hi: "\<lfloor>q\<rfloor> < 2 ^ nat (bit_length \<lfloor>q\<rfloor>)"
    by simp_all
  have p: "0 < bit_length \<lfloor>q\<rfloor>" using f by (rule bit_length_pos)
  from lo have "(of_int (2 ^ nat (bit_length \<lfloor>q\<rfloor> - 1)) :: rat) \<le> of_int \<lfloor>q\<rfloor>"
    by (simp only: of_int_le_iff)
  then have "(2 ^ nat (bit_length \<lfloor>q\<rfloor> - 1) :: rat) \<le> of_int \<lfloor>q\<rfloor>" by simp
  moreover have "of_int \<lfloor>q\<rfloor> \<le> q" by simp
  ultimately have a: "2 ^ nat (bit_length \<lfloor>q\<rfloor> - 1) \<le> q" by linarith
  from hi have "\<lfloor>q\<rfloor> + 1 \<le> 2 ^ nat (bit_length \<lfloor>q\<rfloor>)" by simp
  then have "(of_int (\<lfloor>q\<rfloor> + 1) :: rat) \<le> of_int (2 ^ nat (bit_length \<lfloor>q\<rfloor>))"
    by (simp only: of_int_le_iff)
  then have "(of_int \<lfloor>q\<rfloor> + 1 :: rat) \<le> 2 ^ nat (bit_length \<lfloor>q\<rfloor>)" by simp
  moreover have "q < of_int \<lfloor>q\<rfloor> + 1" by linarith
  ultimately have b: "q < 2 ^ nat (bit_length \<lfloor>q\<rfloor>)" by linarith
  from True p a b show ?thesis
    by (simp add: ilog2_def pow2_of_nat)
next
  case False
  define r where "r = 1 / q"
  define c where "c = \<lceil>r\<rceil> - 1"
  from False assms have r1: "1 < r" by (simp add: r_def)
  then have cpos: "0 < c" unfolding c_def by linarith
  have c1: "of_int c < r" unfolding c_def by linarith
  have c2: "r \<le> of_int c + 1" unfolding c_def by linarith
  from bit_length_bounds [OF cpos]
  have lo: "2 ^ nat (bit_length c - 1) \<le> c" and hi: "c < 2 ^ nat (bit_length c)" by simp_all
  have p: "0 < bit_length c" using cpos by (rule bit_length_pos)
  from lo have "(of_int (2 ^ nat (bit_length c - 1)) :: rat) \<le> of_int c" by (simp only: of_int_le_iff)
  then have "(2 ^ nat (bit_length c - 1) :: rat) \<le> of_int c" by simp
  with c1 have a: "2 ^ nat (bit_length c - 1) < r" by linarith
  from hi have "c + 1 \<le> 2 ^ nat (bit_length c)" by simp
  then have "(of_int (c + 1) :: rat) \<le> of_int (2 ^ nat (bit_length c))" by (simp only: of_int_le_iff)
  then have "(of_int c + 1 :: rat) \<le> 2 ^ nat (bit_length c)" by simp
  with c2 have b: "r \<le> 2 ^ nat (bit_length c)" by linarith
  have il: "ilog2 q = - bit_length c"
    using False by (simp add: ilog2_def c_def r_def)
  have q: "q = 1 / r" using assms by (simp add: r_def)
  have rpos: "0 < r" using r1 by simp
  from b rpos have "1 / 2 ^ nat (bit_length c) \<le> 1 / r"
    by (simp add: frac_le)
  then have A: "pow2 (- bit_length c) \<le> q"
    using p by (simp add: q pow2_neg pow2_of_nat)
  from a rpos have "1 / r < 1 / 2 ^ nat (bit_length c - 1)"
    by (simp add: frac_less2)
  moreover have "pow2 (- bit_length c + 1) = 1 / 2 ^ nat (bit_length c - 1)"
    using p pow2_neg [of "bit_length c - 1"] by (simp add: pow2_of_nat)
  ultimately have B: "q < pow2 (- bit_length c + 1)" by (simp add: q)
  from A B il show ?thesis by simp
qed

lemma pow2_pos: "0 < pow2 k"
  by (simp add: pow2_def)

lemma round_half_even_nonneg: "0 \<le> q \<Longrightarrow> 0 \<le> round_half_even q"
  by (auto simp: round_half_even_def Let_def)

lemma double_of_rat_nonneg: "0 \<le> q \<Longrightarrow> float_nonneg (double_of_rat q)"
proof -
  assume q: "0 \<le> q"
  have "0 \<le> of_int (round_half_even (\<bar>q\<bar> / u)) * u" if "0 < u" for u :: rat
    using that by (simp add: round_half_even_nonneg)
  then show ?thesis
    using q by (auto simp: double_of_rat_def Let_def float_nonneg_def pow2_pos)
qed

lemma float_times_1000_nonneg: "float_nonneg x \<Longrightarrow> float_nonneg (float_times_1000 x)"
proof (cases x)
  case (Finite q)
  assume "float_nonneg x"
  with Finite have "0 \<le> q * 1000" by (simp add: float_nonneg_def)
  then have "float_nonneg (double_of_rat (q * 1000))" by (rule double_of_rat_nonneg)
  with Finite show ?thesis by (simp add: float_times_1000_def)
qed (simp_all add: float_times_1000_def)

lemma int_of_float_nonneg: "float_nonneg x \<Longrightarrow> int_of_float x = Inr n \<Longrightarrow> 0 \<le> n"
  by (cases x) (auto simp: int_of_float_def float_nonneg_def)

lemma decimal_val_digits_nonneg:
  "list_all is_digit fr \<Longrightarrow> 0 \<le> decimal_val (takeWhile is_digit s @ fr)"
proof -
  assume "list_all is_digit fr"
  moreover have "list_all is_digit (takeWhile is_digit s)"
    by (auto simp: list_all_iff dest: set_takeWhileD)
  ultimately have "list_all is_digit (takeWhile is_digit s @ fr)" by simp
  then show ?thesis by (rule decimal_val_nonneg)
qed

lemma py_float_nonneg: "py_float s = Inr x \<Longrightarrow> float_nonneg x"
proof -
  assume a: "py_float s = Inr x"
  show ?thesis
  proof (cases "dropWhile is_digit s")
    case Nil
    have "0 \<le> decimal_val (takeWhile is_digit s @ [])"
      by (rule decimal_val_digits_nonneg) simp
    then have "float_nonneg (double_of_rat (of_int (decimal_val (takeWhile is_digit s))))"
      by (intro double_of_rat_nonneg) simp
    with a Nil show ?thesis
      by (simp add: py_float_def Let_def split: if_splits)
  next
    case (Cons c fr)
    with a have fr: "list_all is_digit fr"
      and x: "x = double_of_rat (of_int (decimal_val (takeWhile is_digit s @ fr)) / 10 ^ length fr)"
      by (simp_all add: py_float_def Let_def split: if_splits)
    from fr have "0 \<le> decimal_val (takeWhile is_digit s @ fr)"
      by (rule decimal_val_digits_nonneg)
    then have "(0::rat) \<le> of_int (decimal_val (takeWhile is_digit s @ fr)) / 10 ^ length fr"
      by simp
    then show ?thesis unfolding x by (rule double_of_rat_nonneg)
  qed
qed

lemma float_of_first_match_nonneg: "float_of_first_match d = Inr x \<Longrightarrow> float_nonneg x"
  by (auto simp: float_of_first_match_def py_float_nonneg split: list.splits)

subsection \<open>The first match, and the unit\<close>

lemmas io_defs = requests_get_def emit_def moment_def log_info_def log_debug_def log_error_def
  log_exception_def log_warning_def sleep_def

lemma get_response_device:
  "get_response (varying_env home production h) ''/production'' (reader_at tr) =
     (Inr \<lparr>status_code = 200, resp_text = production\<rparr>,
      reader_at (tr @ [Get ''http://10.0.0.5/production'' None]))"
  by (simp add: get_response_def varying_env_def reader_at_def io_defs)

lemma first_text_device:
  "first_text (varying_env home production h) p \<lparr>status_code = 200, resp_text = t\<rparr> =
     (case cell_xpath p t of Inl e \<Rightarrow> Inl e | Inr [] \<Rightarrow> Inl IndexError | Inr (d # ds) \<Rightarrow> Inr d)"
  by (simp add: first_text_def varying_env_def)

lemma cells: "cell_xpath ''/html/body/div[1]/table/tr[3]/td[2]/text()'' ''850 W;1.5 kW'' = Inr [''1.5 kW'']"
  "cell_xpath ''/html/body/div[1]/table/tr[2]/td[2]/text()'' ''850 W;1.5 kW'' = Inr [''850 W'']"
  by (simp_all add: cell_xpath_def)

lemma floor_rat_numeral_div: "\<lfloor>(numeral a :: rat) / numeral b\<rfloor> = numeral a div numeral b"
  using floor_divide_of_int_eq [of "numeral a" "numeral b", where ?'a = rat] by simp
lemma ceiling_rat_numeral_div: "\<lceil>(numeral a :: rat) / numeral b\<rceil> = - (- numeral a div numeral b)"
  using ceiling_divide_eq_div [of "numeral a" "numeral b", where ?'a = rat] by simp
lemmas ilog2_eval = ilog2_def bit_length.simps floor_rat_numeral_div ceiling_rat_numeral_div
lemmas double_eval = double_of_rat_def pow2_def round_half_even_def Let_def floor_rat_numeral_div
lemmas text_eval = py_float_def is_digit_def decimal_val_def digit_val_def number_char_def
  float_of_first_match_def

lemma ilog2_850: "ilog2 850 = 9" by (simp add: ilog2_eval)
lemma double_850: "double_of_rat 850 = Finite 850" by (simp add: ilog2_850 double_eval)
lemma ilog2_15: "ilog2 (3 / 2) = 0" by (simp add: ilog2_eval)
lemma double_15: "double_of_rat (3 / 2) = Finite (3 / 2)" by (simp add: ilog2_15 double_eval)
lemma ilog2_1500: "ilog2 1500 = 10" by (simp add: ilog2_eval)
lemma double_1500: "double_of_rat 1500 = Finite 1500" by (simp add: ilog2_1500 double_eval)

lemma first_match_850: "float_of_first_match ''850 W'' = Inr (Finite 850)"
  by (simp add: text_eval double_850)
lemma first_match_15: "float_of_first_match ''1.5 kW'' = Inr (Finite (3 / 2))"
  by (simp add: text_eval double_15)
lemma times_15: "float_times_1000 (Finite (3 / 2)) = Finite 1500"
  by (simp add: float_times_1000_def double_1500)


lemma findall_first_run:
  "number_pattern_findall d =
     (case dropWhile (\<lambda>c. \<not> number_char c) d of
        [] \<Rightarrow> []
      | c # cs \<Rightarrow> takeWhile number_char (c # cs) # number_pattern_findall (dropWhile number_char cs))"
proof (induction d)
  case Nil
  show ?case by simp
next
  case (Cons a d)
  show ?case
  proof (cases "number_char a")
    case True
    then show ?thesis by simp
  next
    case False
    then show ?thesis using Cons.IH by simp
  qed
qed

lemma py_float_Nil: "py_float [] = Inl ValueError"
  by (simp add: py_float_def)

lemma float_of_first_match_run:
  "float_of_first_match d =
     (if dropWhile (\<lambda>c. \<not> number_char c) d = [] then Inl IndexError
      else py_float (takeWhile number_char (dropWhile (\<lambda>c. \<not> number_char c) d)))"
proof (cases "dropWhile (\<lambda>c. \<not> number_char c) d")
  case Nil
  have "number_pattern_findall d = []"
    by (subst findall_first_run) (simp only: Nil list.case)
  with Nil show ?thesis
    by (simp only: float_of_first_match_def list.case if_True simp_thms)
next
  case (Cons c cs)
  have "number_pattern_findall d =
          takeWhile number_char (c # cs) # number_pattern_findall (dropWhile number_char cs)"
    by (subst findall_first_run) (simp only: Cons list.case)
  with Cons show ?thesis
    by (simp only: float_of_first_match_def list.case list.distinct if_False)
qed

lemma float_of_first_match_parsed:
  assumes "py_float (takeWhile number_char (dropWhile (\<lambda>c. \<not> number_char c) d)) = Inr x"
  shows "float_of_first_match d = Inr x"
proof (cases "dropWhile (\<lambda>c. \<not> number_char c) d = []")
  case True
  with assms have "py_float [] = Inr x" by (simp only: takeWhile.simps)
  then show ?thesis by (simp add: py_float_Nil)
next
  case False
  with assms show ?thesis by (simp only: float_of_first_match_run if_False)
qed

lemma float_of_first_match_no_number_char:
  "\<forall>c\<in>set d. \<not> number_char c \<Longrightarrow> float_of_first_match d = Inl IndexError"
proof -
  assume "\<forall>c\<in>set d. \<not> number_char c"
  then have "dropWhile (\<lambda>c. \<not> number_char c) d = []" by simp
  then show ?thesis by (simp only: float_of_first_match_run if_True simp_thms)
qed

lemma int_of_float_floor: "float_nonneg (Finite q) \<Longrightarrow> int_of_float (Finite q) = Inr \<lfloor>q\<rfloor>"
  by (simp add: float_nonneg_def int_of_float_def)

text \<open>
  C7: when the first run of digits and full stops of a metric text parses as a float,
  the power reading is that float, multiplied by 1000 if the text contains \<open>kW\<close> and
  unchanged otherwise, and the energy reading is that value cut to an integer.
\<close>

theorem kw_normalisation:
  assumes "get_response E ''/production'' w = (Inr page, w1)"
    and "py_float (takeWhile number_char (dropWhile (\<lambda>c. \<not> number_char c) d)) = Inr x"
    and "v = (if str_contains ''kW'' d then float_times_1000 x else x)"
  shows "(first_text E ''/html/body/div[1]/table/tr[2]/td[2]/text()'' page = Inr d \<longrightarrow>
            get_current_watt_production E w = (Inr v, w1)) \<and>
         (first_text E ''/html/body/div[1]/table/tr[3]/td[2]/text()'' page = Inr d \<longrightarrow>
            get_wh_production E w = (int_of_float v, w1)) \<and>
         (\<forall>q. v = Finite q \<longrightarrow> int_of_float v = Inr \<lfloor>q\<rfloor>)"
proof -
  have m: "float_of_first_match d = Inr x"
    using assms(2) by (rule float_of_first_match_parsed)
  then have "float_nonneg x" by (rule float_of_first_match_nonneg)
  then have "float_nonneg v"
    using assms(3) by (simp add: float_times_1000_nonneg)
  then have "\<forall>q. v = Finite q \<longrightarrow> int_of_float v = Inr \<lfloor>q\<rfloor>"
    by (auto simp: int_of_float_floor)
  then show ?thesis
    using assms(1,3) m by (simp add: get_current_watt_production_def get_wh_production_def)
qed

lemma production_same_cells:
  "first_text (varying_env home ''1.5 kW;1.5 kW'' h) ''/html/body/div[1]/table/tr[2]/td[2]/text()''
      \<lparr>status_code = 200, resp_text = ''1.5 kW;1.5 kW''\<rparr> = Inr ''1.5 kW''"
  "first_text (varying_env home ''1.5 kW;1.5 kW'' h) ''/html/body/div[1]/table/tr[3]/td[2]/text()''
      \<lparr>status_code = 200, resp_text = ''1.5 kW;1.5 kW''\<rparr> = Inr ''1.5 kW''"
  by (simp_all add: first_text_device cell_xpath_def)

lemma py_float_15: "py_float ''1.5'' = Inr (Finite (3 / 2))"
  by (simp add: text_eval double_15)

theorem kw_normalisation_witness:
  "get_current_watt_production (device_env ''5'' ''1.5 kW;1.5 kW'' 10) (reader_at []) =
     (Inr (Finite 1500), reader_at [Get ''http://10.0.0.5/production'' None]) \<and>
   get_wh_production (device_env ''5'' ''1.5 kW;1.5 kW'' 10) (reader_at []) =
     (Inr 1500, reader_at [Get ''http://10.0.0.5/production'' None])"
  using kw_normalisation [of "device_env ''5'' ''1.5 kW;1.5 kW'' 10" "reader_at []"
      "\<lparr>status_code = 200, resp_text = ''1.5 kW;1.5 kW''\<rparr>"
      "reader_at [Get ''http://10.0.0.5/production'' None]" "''1.5 kW''" "Finite (3 / 2)" "Finite 1500"]
    get_response_device [of "\<lambda>m. ''5''" "''1.5 kW;1.5 kW''" "\<lambda>m. 10" "[]"]
    production_same_cells [of "\<lambda>m. ''5''" "\<lambda>m. 10"]
  by (simp add: device_env_def number_char_def is_digit_def py_float_15 times_15 int_of_float_def)

subsection \<open>The inverter count, the clock, and texts without a number\<close>

lemma set_strip: "set (strip s) \<subseteq> set s"
proof -
  have "set (strip s) \<subseteq> set (rev (dropWhile is_space s))"
    unfolding strip_def by (auto dest: set_dropWhileD)
  also have "\<dots> \<subseteq> set s" by (auto dest: set_dropWhileD)
  finally show ?thesis .
qed

lemma py_int_nonneg:
  assumes "py_int d = Inr n" and "CHR ''-'' \<notin> set d"
  shows "0 \<le> n"
proof -
  define t where "t = strip d"
  define body where "body = (if t \<noteq> [] \<and> (hd t = CHR ''-'' \<or> hd t = CHR ''+'') then tl t else t)"
  define groups where "groups = split_on (CHR ''_'') body"
  have "t \<noteq> [] \<Longrightarrow> hd t \<in> set d"
    using set_strip [of d] by (auto simp: t_def)
  with assms(2) have neg: "\<not> (t \<noteq> [] \<and> hd t = CHR ''-'')" by auto
  from assms(1) have
    "(if list_all (\<lambda>g. g \<noteq> [] \<and> list_all is_digit g) groups
      then Inr ((if t \<noteq> [] \<and> hd t = CHR ''-'' then - 1 else 1) * decimal_val (concat groups))
      else Inl ValueError) = Inr n"
    by (simp only: py_int_def Let_def t_def body_def groups_def)
  then have ok: "list_all (\<lambda>g. g \<noteq> [] \<and> list_all is_digit g) groups"
    and n: "n = (if t \<noteq> [] \<and> hd t = CHR ''-'' then - 1 else 1) * decimal_val (concat groups)"
    by (auto split: if_splits)
  from ok have "list_all is_digit (concat groups)"
    by (auto simp: list_all_iff)
  then have "0 \<le> decimal_val (concat groups)" by (rule decimal_val_nonneg)
  with n neg show ?thesis by simp
qed

text \<open>
  C10: \<open>is_past_noon\<close> is true exactly when the hour of the clock is greater than 12, so
  at any time from 12:00:00 to 12:59:59 it is false, and the loop condition of \<open>main_loop\<close>
  read at such a time holds whatever the inverter count is.
\<close>

theorem is_past_noon_hour:
  "fst (is_past_noon E w) = (12 < hour (clock E (moment w))) \<and>
   (hour (clock E (moment w)) = 12 \<longrightarrow> \<not> fst (is_past_noon E w)) \<and>
   (is_online E w = (Inr on, w1) \<longrightarrow> hour (clock E (moment w1)) = 12 \<longrightarrow>
      fst (main_loop_cond E w) = Inr True)"
  by (simp add: is_past_noon_def main_loop_cond_def)

lemma get_response_home:
  "get_response (varying_env home production h) ''/home'' (reader_at tr) =
     (Inr \<lparr>status_code = 200, resp_text = home (length tr)\<rparr>,
      reader_at (tr @ [Get ''http://10.0.0.5/home'' None]))"
  by (simp add: get_response_def varying_env_def reader_at_def io_defs)

lemma reader_at_emit: "emit ev (reader_at tr) = reader_at (tr @ [ev])"
  by (simp add: emit_def reader_at_def)

lemma moment_reader_at: "moment (reader_at tr) = length tr"
  by (simp add: moment_def reader_at_def)

lemma get_mi_online_device:
  "get_mi_online (varying_env home production h) (reader_at tr) =
     (case py_int (home (Suc (length tr))) of
        Inl e \<Rightarrow> (Inl e, reader_at (tr @ [Log INFO ''Determining current solar cell status...'',
                                             Get ''http://10.0.0.5/home'' None]))
      | Inr n \<Rightarrow> (Inr n, reader_at (tr @ [Log INFO ''Determining current solar cell status...'',
                                             Get ''http://10.0.0.5/home'' None,
                                             Log DEBUG (str_int n @ '' out of 24 microinverters online'')])))"
  by (simp add: get_mi_online_def log_info_def log_debug_def reader_at_emit get_response_home
      first_text_device cell_xpath_def split: sum.splits)

lemmas py_int_eval = py_int_def strip_def is_space_def is_digit_def decimal_val_def digit_val_def

lemma py_int_5: "py_int ''5'' = Inr 5" by (simp add: py_int_eval)
lemma py_int_0: "py_int ''0'' = Inr 0" by (simp add: py_int_eval)
lemma py_int_minus_3: "py_int ''-3'' = Inr (- 3)" by (simp add: py_int_eval)
lemma py_int_minus_1: "py_int ''-1'' = Inr (- 1)" by (simp add: py_int_eval)
lemma py_int_na: "py_int ''n/a'' = Inl ValueError" by (simp add: py_int_eval)

theorem is_past_noon_hour_witness:
  "hour (clock (device_env ''0'' [] 12) (moment (reader_at []))) = 12 \<and>
   \<not> fst (is_past_noon (device_env ''0'' [] 12) (reader_at [])) \<and>
   fst (is_online (device_env ''0'' [] 12) (reader_at [])) = Inr False \<and>
   fst (main_loop_cond (device_env ''0'' [] 12) (reader_at [])) = Inr True"
  using is_past_noon_hour [of "device_env ''0'' [] 12" "reader_at []" False
      "snd (is_online (device_env ''0'' [] 12) (reader_at []))"]
  by (simp add: device_env_def is_online_def get_mi_online_device py_int_0) (simp add: varying_env_def)

text \<open>
  C9, as amended: the energy reading and the power reading are never negative when they
  are returned; the inverter count is the integer its cell denotes, and is not negative
  when the text of the cell has no minus sign.
\<close>

theorem readings_nonneg:
  "(get_wh_production E w = (Inr n, wa) \<longrightarrow> 0 \<le> n) \<and>
   (get_current_watt_production E w = (Inr x, wb) \<longrightarrow> float_nonneg x) \<and>
   (get_mi_online E w = (Inr m, wc) \<longrightarrow>
      get_response E ''/home'' (log_info ''Determining current solar cell status...'' w) = (Inr page, w1) \<longrightarrow>
      first_text E ''/html/body/table/tr/td[2]/table/tr[5]/td[2]/text()'' page = Inr d \<longrightarrow>
      CHR ''-'' \<notin> set d \<longrightarrow> 0 \<le> m)"
proof (intro conjI impI)
  assume "get_wh_production E w = (Inr n, wa)"
  then show "0 \<le> n"
    by (auto simp: get_wh_production_def split: prod.splits sum.splits if_splits
        dest!: float_of_first_match_nonneg
        intro: int_of_float_nonneg float_times_1000_nonneg)
next
  assume "get_current_watt_production E w = (Inr x, wb)"
  then show "float_nonneg x"
    by (auto simp: get_current_watt_production_def float_nonneg_def [of "Finite 0"]
        split: prod.splits sum.splits if_splits
        dest!: float_of_first_match_nonneg intro: float_times_1000_nonneg)
next
  assume "get_mi_online E w = (Inr m, wc)"
    and "get_response E ''/home'' (log_info ''Determining current solar cell status...'' w) = (Inr page, w1)"
    and "first_text E ''/html/body/table/tr/td[2]/table/tr[5]/td[2]/text()'' page = Inr d"
    and "CHR ''-'' \<notin> set d"
  then show "0 \<le> m"
    by (auto simp: get_mi_online_def split: sum.splits intro: py_int_nonneg)
qed

text \<open>
  C9 as stated fails for the inverter count: a cell with the text \<open>-3\<close> is read as
  the integer \<open>-3\<close>.
\<close>

theorem negative_inverter_count:
  "fst (get_mi_online (device_env ''-3'' [] 10) (reader_at [])) = Inr (- 3) \<and> \<not> (0::int) \<le> - 3"
  by (simp add: device_env_def get_mi_online_device py_int_minus_3)

lemma get_wh_production_device:
  "get_wh_production (varying_env home production h) (reader_at tr) =
     (case first_text (varying_env home production h) ''/html/body/div[1]/table/tr[3]/td[2]/text()''
             \<lparr>status_code = 200, resp_text = production\<rparr> of
        Inl e \<Rightarrow> (Inl e, reader_at (tr @ [Get ''http://10.0.0.5/production'' None]))
      | Inr d \<Rightarrow>
          (case float_of_first_match d of
             Inl e \<Rightarrow>
               if e = ValueError
               then (Inr 0, reader_at (tr @ [Get ''http://10.0.0.5/production'' None,
                                              Log ERROR ''Couldn't convert to float'']))
               else (Inl e, reader_at (tr @ [Get ''http://10.0.0.5/production'' None]))
           | Inr x \<Rightarrow>
               (int_of_float (if str_contains ''kW'' d then float_times_1000 x else x),
                reader_at (tr @ [Get ''http://10.0.0.5/production'' None]))))"
  by (simp add: get_wh_production_def get_response_device log_exception_def reader_at_emit
      split: sum.splits)

lemma get_current_watt_production_device:
  "get_current_watt_production (varying_env home production h) (reader_at tr) =
     (case first_text (varying_env home production h) ''/html/body/div[1]/table/tr[2]/td[2]/text()''
             \<lparr>status_code = 200, resp_text = production\<rparr> of
        Inl e \<Rightarrow> (Inl e, reader_at (tr @ [Get ''http://10.0.0.5/production'' None]))
      | Inr d \<Rightarrow>
          (case float_of_first_match d of
             Inl e \<Rightarrow>
               if e = ValueError
               then (Inr (Finite 0), reader_at (tr @ [Get ''http://10.0.0.5/production'' None,
                                              Log ERROR ''Couldn't convert to float'']))
               else (Inl e, reader_at (tr @ [Get ''http://10.0.0.5/production'' None]))
           | Inr x \<Rightarrow>
               (Inr (if str_contains ''kW'' d then float_times_1000 x else x),
                reader_at (tr @ [Get ''http://10.0.0.5/production'' None]))))"
  by (simp add: get_current_watt_production_def get_response_device log_exception_def reader_at_emit
      split: sum.splits)

lemma cells_850_15:
  "first_text (varying_env home ''850 W;1.5 kW'' h) ''/html/body/div[1]/table/tr[3]/td[2]/text()''
      \<lparr>status_code = 200, resp_text = ''850 W;1.5 kW''\<rparr> = Inr ''1.5 kW''"
  "first_text (varying_env home ''850 W;1.5 kW'' h) ''/html/body/div[1]/table/tr[2]/td[2]/text()''
      \<lparr>status_code = 200, resp_text = ''850 W;1.5 kW''\<rparr> = Inr ''850 W''"
  by (simp_all add: first_text_device cell_xpath_def)

lemma cells_na:
  "first_text (varying_env home ''n/a;n/a'' h) ''/html/body/div[1]/table/tr[3]/td[2]/text()''
      \<lparr>status_code = 200, resp_text = ''n/a;n/a''\<rparr> = Inr ''n/a''"
  "first_text (varying_env home ''n/a;n/a'' h) ''/html/body/div[1]/table/tr[2]/td[2]/text()''
      \<lparr>status_code = 200, resp_text = ''n/a;n/a''\<rparr> = Inr ''n/a''"
  by (simp_all add: first_text_device cell_xpath_def)

lemma cells_dot:
  "first_text (varying_env home ''. W;. W'' h) ''/html/body/div[1]/table/tr[3]/td[2]/text()''
      \<lparr>status_code = 200, resp_text = ''. W;. W''\<rparr> = Inr ''. W''"
  "first_text (varying_env home ''. W;. W'' h) ''/html/body/div[1]/table/tr[2]/td[2]/text()''
      \<lparr>status_code = 200, resp_text = ''. W;. W''\<rparr> = Inr ''. W''"
  by (simp_all add: first_text_device cell_xpath_def)

lemma first_match_na: "float_of_first_match ''n/a'' = Inl IndexError"
  by (simp add: text_eval)

lemma first_match_dot: "float_of_first_match ''. W'' = Inl ValueError"
  by (simp add: text_eval)

lemma wh_850_15:
  "get_wh_production (varying_env home ''850 W;1.5 kW'' h) (reader_at tr) =
     (Inr 1500, reader_at (tr @ [Get ''http://10.0.0.5/production'' None]))"
  by (simp add: get_wh_production_device cells_850_15 first_match_15 times_15 int_of_float_def)

lemma watt_850_15:
  "get_current_watt_production (varying_env home ''850 W;1.5 kW'' h) (reader_at tr) =
     (Inr (Finite 850), reader_at (tr @ [Get ''http://10.0.0.5/production'' None]))"
  by (simp add: get_current_watt_production_device cells_850_15 first_match_850)

lemma dot_text_reads_zero:
  "get_wh_production (varying_env home ''. W;. W'' h) (reader_at tr) =
     (Inr 0, reader_at (tr @ [Get ''http://10.0.0.5/production'' None,
                              Log ERROR ''Couldn't convert to float'']))"
  "get_current_watt_production (varying_env home ''. W;. W'' h) (reader_at tr) =
     (Inr (Finite 0), reader_at (tr @ [Get ''http://10.0.0.5/production'' None,
                              Log ERROR ''Couldn't convert to float'']))"
  by (simp_all add: get_wh_production_device get_current_watt_production_device cells_dot first_match_dot)

text \<open>A text without digits: the fallback to 0 is reached only through a full stop.\<close>

lemma py_float_full_stops:
  assumes "\<forall>c\<in>set s. c = CHR ''.''"
  shows "py_float s = Inl ValueError"
proof (cases s)
  case Nil
  then show ?thesis by (simp add: py_float_Nil)
next
  case (Cons c fr)
  with assms have c: "c = CHR ''.''" and fr: "\<forall>x\<in>set fr. x = CHR ''.''" by simp_all
  have nd: "\<not> is_digit (CHR ''.'')" by (simp add: is_digit_def)
  have "\<not> (list_all is_digit fr \<and> fr \<noteq> [])"
  proof (cases fr)
    case Nil
    then show ?thesis by simp
  next
    case (Cons x xs)
    with fr have "x = CHR ''.''" by simp
    with Cons nd show ?thesis by simp
  qed
  with Cons c nd show ?thesis
    by (auto simp: py_float_def Let_def)
qed

lemma digit_free_text:
  assumes "\<forall>c\<in>set d. \<not> is_digit c"
  shows "float_of_first_match d =
           (if CHR ''.'' \<in> set d then Inl ValueError else Inl IndexError)"
proof (cases "CHR ''.'' \<in> set d")
  case False
  with assms have "\<forall>c\<in>set d. \<not> number_char c"
    by (auto simp: number_char_def)
  then have "float_of_first_match d = Inl IndexError"
    by (rule float_of_first_match_no_number_char)
  with False show ?thesis by simp
next
  case True
  then have "number_char (CHR ''.'')" "\<exists>c\<in>set d. number_char c"
    by (auto simp: number_char_def)
  then have ne: "dropWhile (\<lambda>c. \<not> number_char c) d \<noteq> []" by simp
  have "\<forall>c\<in>set (takeWhile number_char (dropWhile (\<lambda>c. \<not> number_char c) d)). c = CHR ''.''"
  proof
    fix c assume c: "c \<in> set (takeWhile number_char (dropWhile (\<lambda>c. \<not> number_char c) d))"
    then have "number_char c" by (rule set_takeWhileD [THEN conjunct2])
    moreover from c have "c \<in> set d"
      by (auto dest!: set_takeWhileD set_dropWhileD)
    ultimately show "c = CHR ''.''" using assms by (auto simp: number_char_def)
  qed
  then have "py_float (takeWhile number_char (dropWhile (\<lambda>c. \<not> number_char c) d)) = Inl ValueError"
    by (rule py_float_full_stops)
  with ne True show ?thesis
    by (simp only: float_of_first_match_run if_False if_True)
qed

lemma digit_free_reading:
  assumes "get_response E ''/production'' w = (Inr page, w1)" and "\<forall>c\<in>set d. \<not> is_digit c"
  shows "first_text E ''/html/body/div[1]/table/tr[3]/td[2]/text()'' page = Inr d \<Longrightarrow>
           get_wh_production E w =
             (if CHR ''.'' \<in> set d then (Inr 0, log_exception ''Couldn't convert to float'' w1)
              else (Inl IndexError, w1))"
    and "first_text E ''/html/body/div[1]/table/tr[2]/td[2]/text()'' page = Inr d \<Longrightarrow>
           get_current_watt_production E w =
             (if CHR ''.'' \<in> set d then (Inr (Finite 0), log_exception ''Couldn't convert to float'' w1)
              else (Inl IndexError, w1))"
  using assms(1) digit_free_text [OF assms(2)]
  by (simp_all add: get_wh_production_def get_current_watt_production_def)

text \<open>
  C2: a metric text with neither a digit nor a full stop has no match of
  \<open>number_pattern\<close>, so \<open>match[0]\<close> raises \<open>IndexError\<close>, which the handler for
  \<open>ValueError\<close> does not catch: the reading raises instead of returning 0.
\<close>

theorem text_without_number_raises:
  "filter is_digit ''n/a'' = [] \<and>
   get_wh_production (device_env ''5'' ''n/a;n/a'' 10) (reader_at []) =
     (Inl IndexError, reader_at [Get ''http://10.0.0.5/production'' None]) \<and>
   get_current_watt_production (device_env ''5'' ''n/a;n/a'' 10) (reader_at []) =
     (Inl IndexError, reader_at [Get ''http://10.0.0.5/production'' None])"
  by (simp add: device_env_def get_wh_production_device get_current_watt_production_device cells_na
      first_match_na is_digit_def)

theorem readings_nonneg_witness:
  "get_wh_production (device_env ''5'' ''850 W;1.5 kW'' 10) (reader_at []) =
     (Inr 1500, reader_at [Get ''http://10.0.0.5/production'' None]) \<and> (0::int) \<le> 1500 \<and>
   get_current_watt_production (device_env ''5'' ''850 W;1.5 kW'' 10) (reader_at []) =
     (Inr (Finite 850), reader_at [Get ''http://10.0.0.5/production'' None]) \<and> float_nonneg (Finite 850) \<and>
   fst (get_mi_online (device_env ''5'' ''850 W;1.5 kW'' 10) (reader_at [])) = Inr 5 \<and>
   CHR ''-'' \<notin> set ''5'' \<and> (0::int) \<le> 5"
  using readings_nonneg [of "device_env ''5'' ''850 W;1.5 kW'' 10" "reader_at []" 1500
      "reader_at [Get ''http://10.0.0.5/production'' None]" "Finite 850"
      "reader_at [Get ''http://10.0.0.5/production'' None]" 5
      "reader_at [Log INFO ''Determining current solar cell status...'', Get ''http://10.0.0.5/home'' None,
                  Log DEBUG ''5 out of 24 microinverters online'']"
      "\<lparr>status_code = 200, resp_text = ''5''\<rparr>"
      "reader_at [Log INFO ''Determining current solar cell status...'', Get ''http://10.0.0.5/home'' None]"
      "''5''"]
  by (simp add: device_env_def wh_850_15 watt_850_15 get_mi_online_device py_int_5 float_nonneg_def)

section \<open>Finding and keeping the address\<close>

lemma probes_Suc: "probes w (Suc n) = probes w n @ [Get (''http://'' @ candidate w n) (Some 2)]"
  by (simp add: probes_def)

lemma after_probes_0: "after_probes w 0 = w"
  by (simp add: after_probes_def probes_def)

lemma after_probes_fields:
  "tag (after_probes w n) = tag w"
  "base_ip_range (after_probes w n) = base_ip_range w"
  "using_static_ip (after_probes w n) = using_static_ip w"
  "ip_address (after_probes w n) = ip_address w"
  "moment (after_probes w n) = moment w + n"
  "candidate (after_probes w n) i = candidate w i"
  by (simp_all add: after_probes_def moment_def candidate_def probes_def)

lemma emit_fields:
  "tag (emit ev w) = tag w"
  "base_ip_range (emit ev w) = base_ip_range w"
  "using_static_ip (emit ev w) = using_static_ip w"
  "ip_address (emit ev w) = ip_address w"
  "trace (emit ev w) = trace w @ [ev]"
  "moment (emit ev w) = Suc (moment w)"
  "candidate (emit ev w) i = candidate w i"
  by (simp_all add: emit_def moment_def candidate_def)

lemma emit_after_probes:
  "ev = Get (''http://'' @ candidate w n) (Some 2) \<Longrightarrow>
     emit ev (after_probes w n) = after_probes w (Suc n)"
  by (simp add: emit_def after_probes_def probes_Suc)

lemma probe_after_probes:
  "probe E (candidate w n) (after_probes w n) = (probe_outcome E w n, after_probes w (Suc n))"
  by (simp add: probe_def requests_get_def probe_outcome_def after_probes_fields emit_after_probes
      emit_fields split: sum.splits)

lemma scan_step:
  assumes "j < m"
  shows "scan E [j..<m] (after_probes w j) =
     (case probe_outcome E w j of
        Inr found \<Rightarrow>
          if found then (Inr (Some (candidate w j)), after_probes w (Suc j))
          else scan E [Suc j..<m] (after_probes w (Suc j))
      | Inl e \<Rightarrow>
          if is_ConnectionError e \<or> is_Timeout e then scan E [Suc j..<m] (after_probes w (Suc j))
          else (Inl e, after_probes w (Suc j)))"
proof -
  from assms have "[j..<m] = j # [Suc j..<m]" by (rule upt_conv_Cons)
  then show ?thesis
    by (simp add: after_probes_fields probe_after_probes split: sum.splits)
qed

lemma scan_skip:
  assumes "\<forall>i<n. skipped (probe_outcome E w i)" and "j \<le> n" and "n \<le> m"
  shows "scan E [j..<m] (after_probes w j) = scan E [n..<m] (after_probes w n)"
  using assms(2)
proof (induction rule: inc_induct)
  case base
  show ?case ..
next
  case (step k)
  from step.hyps assms(3) have "k < m" by simp
  moreover from step.hyps assms(1) have "skipped (probe_outcome E w k)" by simp
  ultimately have "scan E [k..<m] (after_probes w k) = scan E [Suc k..<m] (after_probes w (Suc k))"
    by (auto simp: scan_step skipped_def split: sum.splits)
  with step.IH show ?case by simp
qed

lemma get_ip_address_hit:
  assumes "\<not> using_static_ip w" and "n < 256" and "\<forall>i<n. skipped (probe_outcome E w i)"
    and "probe_outcome E w n = Inr True"
  shows "get_ip_address E w = (Inr (Some (candidate w n)), after_probes w (Suc n))"
proof -
  have "scan E [0..<256] (after_probes w 0) = scan E [n..<256] (after_probes w n)"
    using assms(2,3) by (intro scan_skip) simp_all
  also have "\<dots> = (Inr (Some (candidate w n)), after_probes w (Suc n))"
    using assms(2,4) by (simp add: scan_step)
  finally show ?thesis
    using assms(1) by (simp add: get_ip_address_def after_probes_0)
qed

lemma get_ip_address_none:
  assumes "\<not> using_static_ip w" and "\<forall>i<256. skipped (probe_outcome E w i)"
  shows "get_ip_address E w = (Inr None, after_probes w 256)"
proof -
  have "scan E [0..<256] (after_probes w 0) = scan E [256..<256] (after_probes w 256)"
    using assms(2) by (intro scan_skip) simp_all
  then show ?thesis
    using assms(1) by (simp add: get_ip_address_def after_probes_0)
qed

lemma get_ip_address_abort:
  assumes "\<not> using_static_ip w" and "n < 256" and "\<forall>i<n. skipped (probe_outcome E w i)"
    and "probe_outcome E w n = Inl e" and "\<not> is_ConnectionError e" and "\<not> is_Timeout e"
  shows "get_ip_address E w = (Inl e, after_probes w (Suc n))"
proof -
  have "scan E [0..<256] (after_probes w 0) = scan E [n..<256] (after_probes w n)"
    using assms(2,3) by (intro scan_skip) simp_all
  also have "\<dots> = (Inl e, after_probes w (Suc n))"
    using assms(2,4,5,6) by (simp add: scan_step)
  finally show ?thesis
    using assms(1) by (simp add: get_ip_address_def after_probes_0)
qed

text \<open>
  C6: in scan mode \<open>get_ip_address\<close> requests the candidates \<open>base.0\<close>, \<open>base.1\<close>, ... in this
  order, each with a timeout of 2 seconds, goes on after a candidate that refuses the
  connection, times out or does not match, returns the first candidate whose text matches
  the tag, after at most 256 requests, and returns \<open>None\<close> when none of the 256 matches.
\<close>

theorem scan_finds_first_match:
  assumes "\<not> using_static_ip w"
  shows "(n < 256 \<longrightarrow> (\<forall>i<n. skipped (probe_outcome E w i)) \<longrightarrow> probe_outcome E w n = Inr True \<longrightarrow>
            get_ip_address E w = (Inr (Some (candidate w n)), after_probes w (Suc n))) \<and>
         ((\<forall>i<256. skipped (probe_outcome E w i)) \<longrightarrow>
            get_ip_address E w = (Inr None, after_probes w 256)) \<and>
         trace (after_probes w n) =
            trace w @ map (\<lambda>i. Get (''http://'' @ base_ip_range w @ ''.'' @ str_nat i) (Some 2)) [0..<n]"
  using assms
  by (simp add: get_ip_address_hit get_ip_address_none after_probes_def probes_def candidate_def)

lemmas scan_eval = probe_outcome_def skipped_def candidate_def moment_def is_ConnectionError_def
  is_Timeout_def str_nat.simps

lemma moved_probe_0: "skipped (probe_outcome (moved_env home) (reader_at tr) 0)"
  by (simp add: scan_eval moved_env_def reader_at_def)

lemma moved_probe_1: "probe_outcome (moved_env home) (reader_at tr) 1 = Inr True"
  by (simp add: scan_eval moved_env_def reader_at_def)

lemma dead_probe: "skipped (probe_outcome dead_env w i)"
  by (simp add: scan_eval dead_env_def)

lemma after_probes_reader_2:
  "after_probes (reader_at tr) (Suc (Suc 0)) =
     reader_at (tr @ [Get ''http://10.0.0.0'' (Some 2), Get ''http://10.0.0.1'' (Some 2)])"
  by (simp add: after_probes_def probes_def reader_at_def candidate_def str_nat.simps)

theorem scan_finds_first_match_witness:
  "get_ip_address (moved_env ''5'') (reader_at []) =
     (Inr (Some ''10.0.0.1''),
      reader_at [Get ''http://10.0.0.0'' (Some 2), Get ''http://10.0.0.1'' (Some 2)]) \<and>
   get_ip_address dead_env (reader_at []) = (Inr None, after_probes (reader_at []) 256) \<and>
   length (trace (after_probes (reader_at []) 256)) = 256"
proof -
  have s: "\<not> using_static_ip (reader_at [])"
    by (simp add: reader_at_def)
  have "get_ip_address (moved_env ''5'') (reader_at []) =
          (Inr (Some (candidate (reader_at []) 1)), after_probes (reader_at []) (Suc 1))"
    using scan_finds_first_match [OF s, of 1 "moved_env ''5''"] moved_probe_0 moved_probe_1
    by simp
  moreover have "candidate (reader_at []) 1 = ''10.0.0.1''"
    by (simp add: candidate_def reader_at_def str_nat.simps)
  moreover have "get_ip_address dead_env (reader_at []) = (Inr None, after_probes (reader_at []) 256)"
    using scan_finds_first_match [OF s, of 256 dead_env] dead_probe by simp
  moreover have "length (trace (after_probes (reader_at []) 256)) = 256"
    by (simp add: after_probes_def probes_def reader_at_def)
  ultimately show ?thesis
    using after_probes_reader_2 [of "[]"] by simp
qed

lemma log_fields:
  "using_static_ip (log_info msg w) = using_static_ip w"
  "ip_address (log_info msg w) = ip_address w"
  "tag (log_info msg w) = tag w"
  "base_ip_range (log_info msg w) = base_ip_range w"
  "using_static_ip (log_exception msg w) = using_static_ip w"
  "ip_address (log_exception msg w) = ip_address w"
  by (simp_all add: log_info_def log_exception_def emit_fields)

lemma get_response_static:
  assumes "using_static_ip w"
  shows "get_response E path w =
           (net E (moment w) (''http://'' @ ip_address w @ path) None,
            emit (Get (''http://'' @ ip_address w @ path) None) w)"
  using assms
  by (simp add: get_response_def requests_get_def emit_fields split: sum.splits)

lemma solar_panels_accessible_static:
  assumes "using_static_ip w" and "solar_panels_accessible E w = (r, w1)"
  shows "using_static_ip w1 \<and> ip_address w1 = ip_address w"
  using assms
  by (auto simp: solar_panels_accessible_def get_response_static log_fields emit_fields
      split: sum.splits if_splits)

lemma init_static:
  assumes "SolarReader_init E tg base (Some ip) tr = (Inr u, w0)" and "ip \<noteq> []"
  shows "using_static_ip w0 \<and> ip_address w0 = ip"
proof -
  define w where "w = \<lparr>tag = tg, base_ip_range = base, using_static_ip = True,
                          ip_address = ip, trace = tr\<rparr>"
  have w: "using_static_ip w" "ip_address w = ip" by (simp_all add: w_def)
  obtain r w1 where spa: "solar_panels_accessible E w = (r, w1)" by (cases "solar_panels_accessible E w")
  from w(1) spa have w1: "using_static_ip w1 \<and> ip_address w1 = ip_address w"
    by (rule solar_panels_accessible_static)
  from assms spa have "w0 = log_info (''Found solar device at IP address '' @ ip_address w1) w1"
    by (auto simp: SolarReader_init_def Let_def w_def split: sum.splits if_splits)
  with w1 w show ?thesis by (simp add: log_fields)
qed

text \<open>
  C8: a reader constructed with a static address is in static mode; in static mode
  \<open>get_ip_address\<close> returns the stored address without any request, and \<open>get_response\<close>
  is the one request to that address: its failure is the result, the address stays as it
  is, and nothing is scanned.
\<close>

theorem static_mode_propagates:
  "(SolarReader_init E tg base (Some ip) tr = (Inr u, w0) \<longrightarrow> ip \<noteq> [] \<longrightarrow>
      using_static_ip w0 \<and> ip_address w0 = ip) \<and>
   (using_static_ip w \<longrightarrow>
      get_ip_address E w = (Inr (Some (ip_address w)), w) \<and>
      get_response E path w =
        (net E (moment w) (''http://'' @ ip_address w @ path) None,
         emit (Get (''http://'' @ ip_address w @ path) None) w) \<and>
      using_static_ip (snd (get_response E path w)) \<and>
      ip_address (snd (get_response E path w)) = ip_address w \<and>
      trace (snd (get_response E path w)) = trace w @ [Get (''http://'' @ ip_address w @ path) None])"
  by (auto simp: init_static get_ip_address_def get_response_static emit_fields)

text \<open>
  C5: in scan mode, when the request to the current address fails to connect,
  \<open>get_ip_address\<close> is run once, from the state right after the failed request. With an
  address, the reader stores it and the result is that of one request to the new address,
  whatever it is; with \<open>None\<close> the result is the \<open>RuntimeError\<close>, and no request follows.
\<close>

theorem scan_mode_single_retry:
  assumes "\<not> using_static_ip w"
    and "net E (moment w) (''http://'' @ ip_address w @ path) None = Inl e"
    and "is_ConnectionError e"
    and "w1 = emit (Get (''http://'' @ ip_address w @ path) None) w"
  shows "(get_ip_address E w1 = (Inr (Some new_ip), w2) \<longrightarrow>
            get_response E path w =
              (net E (Suc (moment w2)) (''http://'' @ new_ip @ path) None,
               emit (Get (''http://'' @ new_ip @ path) None)
                 (log_info (''IP address updated to '' @ new_ip @ ''.'') (w2\<lparr>ip_address := new_ip\<rparr>)))) \<and>
         (get_ip_address E w1 = (Inr None, w2) \<longrightarrow>
            get_response E path w = (Inl (RuntimeError ''A seemingly valid IP address failed.''), w2)) \<and>
         (n < 256 \<longrightarrow> (\<forall>i<n. skipped (probe_outcome E w1 i)) \<longrightarrow> probe_outcome E w1 n = Inr True \<longrightarrow>
            fst (get_response E path w) =
              net E (Suc (Suc (Suc (moment w + n)))) (''http://'' @ candidate w n @ path) None \<and>
            ip_address (snd (get_response E path w)) = candidate w n \<and>
            trace (snd (get_response E path w)) =
              trace w @ [Get (''http://'' @ ip_address w @ path) None] @ probes w (Suc n) @
                [Log INFO (''IP address updated to '' @ candidate w n @ ''.''),
                 Get (''http://'' @ candidate w n @ path) None]) \<and>
         ((\<forall>i<256. skipped (probe_outcome E w1 i)) \<longrightarrow>
            fst (get_response E path w) = Inl (RuntimeError ''A seemingly valid IP address failed.'') \<and>
            ip_address (snd (get_response E path w)) = ip_address w \<and>
            trace (snd (get_response E path w)) =
              trace w @ [Get (''http://'' @ ip_address w @ path) None] @ probes w 256)"
proof -
  have scan: "\<not> using_static_ip w1"
    using assms(1,4) by (simp add: emit_fields)
  have step: "get_response E path w =
      (case get_ip_address E w1 of
         (Inl e2, w2) \<Rightarrow> (Inl e2, w2)
       | (Inr None, w2) \<Rightarrow> (Inl (RuntimeError ''A seemingly valid IP address failed.''), w2)
       | (Inr (Some new_ip), w2) \<Rightarrow>
           (net E (Suc (moment w2)) (''http://'' @ new_ip @ path) None,
            emit (Get (''http://'' @ new_ip @ path) None)
              (log_info (''IP address updated to '' @ new_ip @ ''.'') (w2\<lparr>ip_address := new_ip\<rparr>))))"
    using assms
    by (simp add: get_response_def requests_get_def emit_fields log_info_def moment_def emit_def
        split: prod.splits sum.splits option.splits)
  have fields: "candidate w1 i = candidate w i" "moment w1 = Suc (moment w)"
    "trace w1 = trace w @ [Get (''http://'' @ ip_address w @ path) None]"
    "ip_address w1 = ip_address w" "probes w1 k = probes w k" for i k
    using assms(4) by (simp_all add: emit_fields probes_def)
  have hit: "fst (get_response E path w) =
              net E (Suc (Suc (Suc (moment w + n)))) (''http://'' @ candidate w n @ path) None \<and>
            ip_address (snd (get_response E path w)) = candidate w n \<and>
            trace (snd (get_response E path w)) =
              trace w @ [Get (''http://'' @ ip_address w @ path) None] @ probes w (Suc n) @
                [Log INFO (''IP address updated to '' @ candidate w n @ ''.''),
                 Get (''http://'' @ candidate w n @ path) None]"
    if "n < 256" "\<forall>i<n. skipped (probe_outcome E w1 i)" "probe_outcome E w1 n = Inr True"
  proof -
    have "get_ip_address E w1 = (Inr (Some (candidate w1 n)), after_probes w1 (Suc n))"
      using scan that by (rule get_ip_address_hit)
    then show ?thesis
      by (simp add: step fields after_probes_fields emit_fields log_info_def)
         (simp add: emit_def moment_def after_probes_def fields)
  qed
  have none: "fst (get_response E path w) = Inl (RuntimeError ''A seemingly valid IP address failed.'') \<and>
            ip_address (snd (get_response E path w)) = ip_address w \<and>
            trace (snd (get_response E path w)) =
              trace w @ [Get (''http://'' @ ip_address w @ path) None] @ probes w 256"
    if "\<forall>i<256. skipped (probe_outcome E w1 i)"
  proof -
    have "get_ip_address E w1 = (Inr None, after_probes w1 256)"
      using scan that by (rule get_ip_address_none)
    then show ?thesis
      by (simp add: step fields after_probes_fields) (simp add: after_probes_def fields)
  qed
  from step hit none show ?thesis by simp
qed

lemma moved_first_get:
  "net (moved_env home) m ''http://10.0.0.5/home'' None = Inl ConnectionError"
  "net (moved_env home) m ''http://10.0.0.1/home'' None = Inr \<lparr>status_code = 200, resp_text = home\<rparr>"
  "net dead_env m url tmo = Inl ConnectionError"
  by (simp_all add: moved_env_def dead_env_def)

lemma reader_at_fields:
  "using_static_ip (reader_at tr) = False" "ip_address (reader_at tr) = ''10.0.0.5''"
  "trace (reader_at tr) = tr" "moment (reader_at tr) = length tr"
  "candidate (reader_at tr) (Suc 0) = ''10.0.0.1''"
  "using_static_ip (static_reader_at tr) = True" "ip_address (static_reader_at tr) = ''10.0.0.5''"
  "trace (static_reader_at tr) = tr" "moment (static_reader_at tr) = length tr"
  "emit ev (static_reader_at tr) = static_reader_at (tr @ [ev])"
  by (simp_all add: reader_at_def static_reader_at_def moment_def candidate_def str_nat.simps emit_def)

theorem scan_mode_single_retry_witness:
  "fst (get_response (moved_env ''5'') ''/home'' (reader_at [])) = Inr \<lparr>status_code = 200, resp_text = ''5''\<rparr> \<and>
   ip_address (snd (get_response (moved_env ''5'') ''/home'' (reader_at []))) = ''10.0.0.1'' \<and>
   trace (snd (get_response (moved_env ''5'') ''/home'' (reader_at []))) =
     [Get ''http://10.0.0.5/home'' None, Get ''http://10.0.0.0'' (Some 2), Get ''http://10.0.0.1'' (Some 2),
      Log INFO ''IP address updated to 10.0.0.1.'', Get ''http://10.0.0.1/home'' None] \<and>
   fst (get_response dead_env ''/home'' (reader_at [])) =
     Inl (RuntimeError ''A seemingly valid IP address failed.'') \<and>
   ip_address (snd (get_response dead_env ''/home'' (reader_at []))) = ''10.0.0.5'' \<and>
   length (trace (snd (get_response dead_env ''/home'' (reader_at [])))) = 257"
proof -
  have w1: "reader_at [Get ''http://10.0.0.5/home'' None] =
              emit (Get (''http://'' @ ip_address (reader_at []) @ ''/home'') None) (reader_at [])"
    by (simp add: reader_at_emit reader_at_fields)
  have c: "is_ConnectionError ConnectionError" by (simp add: is_ConnectionError_def)
  have s: "\<not> using_static_ip (reader_at [])" by (simp add: reader_at_fields)
  have m: "net (moved_env ''5'') (moment (reader_at [])) (''http://'' @ ip_address (reader_at []) @ ''/home'') None
             = Inl ConnectionError"
    and d: "net dead_env (moment (reader_at [])) (''http://'' @ ip_address (reader_at []) @ ''/home'') None
             = Inl ConnectionError"
    by (simp_all add: reader_at_fields moved_first_get)
  have "fst (get_response (moved_env ''5'') ''/home'' (reader_at [])) =
          net (moved_env ''5'') (Suc (Suc (Suc (moment (reader_at []) + Suc 0))))
            (''http://'' @ candidate (reader_at []) (Suc 0) @ ''/home'') None \<and>
        ip_address (snd (get_response (moved_env ''5'') ''/home'' (reader_at []))) =
          candidate (reader_at []) (Suc 0) \<and>
        trace (snd (get_response (moved_env ''5'') ''/home'' (reader_at []))) =
          trace (reader_at []) @ [Get (''http://'' @ ip_address (reader_at []) @ ''/home'') None] @
            probes (reader_at []) (Suc (Suc 0)) @
            [Log INFO (''IP address updated to '' @ candidate (reader_at []) (Suc 0) @ ''.''),
             Get (''http://'' @ candidate (reader_at []) (Suc 0) @ ''/home'') None]"
    using scan_mode_single_retry [OF s m c w1, where n = "Suc 0"]
      moved_probe_0 [of "''5''" "[Get ''http://10.0.0.5/home'' None]"]
      moved_probe_1 [of "''5''" "[Get ''http://10.0.0.5/home'' None]"]
    by simp
  moreover have "probes (reader_at []) (Suc (Suc 0)) =
      [Get ''http://10.0.0.0'' (Some 2), Get ''http://10.0.0.1'' (Some 2)]"
    by (simp add: probes_def reader_at_def candidate_def str_nat.simps)
  moreover have "fst (get_response dead_env ''/home'' (reader_at [])) =
          Inl (RuntimeError ''A seemingly valid IP address failed.'') \<and>
        ip_address (snd (get_response dead_env ''/home'' (reader_at []))) = ip_address (reader_at []) \<and>
        trace (snd (get_response dead_env ''/home'' (reader_at []))) =
          trace (reader_at []) @ [Get (''http://'' @ ip_address (reader_at []) @ ''/home'') None] @
            probes (reader_at []) 256"
    using scan_mode_single_retry [OF s d c w1] dead_probe by simp
  ultimately show ?thesis
    by (simp add: reader_at_fields moved_first_get probes_def)
qed

theorem static_mode_propagates_witness:
  "SolarReader_init (device_env ''5'' [] 10) ''enphase'' ''10.0.0'' (Some ''10.0.0.5'') [] =
     (Inr (), static_reader_at
        [Log INFO ''Determining connection to solar system...'', Get ''http://10.0.0.5/'' None,
         Log INFO ''Connected successfully'', Log INFO ''Found solar device at IP address 10.0.0.5'']) \<and>
   using_static_ip (snd (SolarReader_init (device_env ''5'' [] 10) ''enphase'' ''10.0.0'' (Some ''10.0.0.5'') [])) \<and>
   get_ip_address dead_env (static_reader_at []) = (Inr (Some ''10.0.0.5''), static_reader_at []) \<and>
   get_response dead_env ''/home'' (static_reader_at []) =
     (Inl ConnectionError, static_reader_at [Get ''http://10.0.0.5/home'' None])"
proof -
  have init: "SolarReader_init (device_env ''5'' [] 10) ''enphase'' ''10.0.0'' (Some ''10.0.0.5'') [] =
     (Inr (), static_reader_at
        [Log INFO ''Determining connection to solar system...'', Get ''http://10.0.0.5/'' None,
         Log INFO ''Connected successfully'', Log INFO ''Found solar device at IP address 10.0.0.5''])"
    by (simp add: SolarReader_init_def Let_def solar_panels_accessible_def get_response_def
        requests_get_def log_info_def emit_def moment_def device_env_def varying_env_def
        static_reader_at_def)
  have "using_static_ip (snd (SolarReader_init (device_env ''5'' [] 10) ''enphase'' ''10.0.0''
          (Some ''10.0.0.5'') []))"
    using static_mode_propagates [where E = "device_env ''5'' [] 10" and tg = "''enphase''"
        and base = "''10.0.0''" and ip = "''10.0.0.5''" and tr = "[]" and u = "()"
        and ?w0.0 = "snd (SolarReader_init (device_env ''5'' [] 10) ''enphase'' ''10.0.0''
          (Some ''10.0.0.5'') [])"]
    by (simp add: init)
  with init show ?thesis
    using static_mode_propagates [where E = dead_env and w = "static_reader_at []" and path = "''/home''"]
    by (simp add: reader_at_fields moved_first_get)
qed

section \<open>The polling loop and the startup decision\<close>

lemma main_loop_cond_read:
  assumes "get_mi_online E w = (Inr n, w1)"
  shows "main_loop_cond E w =
           (if 0 < n then (Inr True, w1)
            else (Inr (\<not> 12 < hour (clock E (moment w1))), emit Now w1))"
  using assms by (simp add: main_loop_cond_def is_online_def is_past_noon_def)

lemma main_loop_cond_raise:
  assumes "get_mi_online E w = (Inl e, w1)"
  shows "main_loop_cond E w = (Inl e, w1)"
  using assms by (simp add: main_loop_cond_def is_online_def)

lemma main_loop_cond_cases:
  assumes "main_loop_cond E w = (Inr b, w')"
  obtains n w1 where "get_mi_online E w = (Inr n, w1)"
    and "b = (0 < n \<or> \<not> 12 < hour (clock E (moment w1)))"
    and "w' = (if 0 < n then w1 else emit Now w1)"
proof (cases "get_mi_online E w")
  case (Pair r w1)
  show ?thesis
  proof (cases r)
    case (Inl e)
    with Pair assms show ?thesis by (simp add: main_loop_cond_raise)
  next
    case (Inr n)
    with Pair assms that [of n w1] show ?thesis
      by (auto simp: main_loop_cond_read split: if_splits)
  qed
qed

lemma main_loop_while_exit:
  "main_loop_cond E w = (Inr False, w1) \<Longrightarrow> main_loop_while E w = Some (Inr (), w1)"
  by (subst main_loop_while.simps) simp

lemma main_loop_while_continue:
  "main_loop_cond E w = (Inr True, w1) \<Longrightarrow>
     main_loop_while E w =
       (case main_loop_body E w1 of
          (Inl e, w2) \<Rightarrow> Some (Inl e, w2)
        | (Inr u, w2) \<Rightarrow> main_loop_while E w2)"
  by (subst main_loop_while.simps) simp

lemma main_loop_while_raise:
  "main_loop_cond E w = (Inl e, w1) \<Longrightarrow> main_loop_while E w = Some (Inl e, w1)"
  by (subst main_loop_while.simps) simp

lemma nth_check_exit:
  "nth_check k E w = Some wk \<Longrightarrow> main_loop_cond E wk = (Inr False, w') \<Longrightarrow>
     main_loop_while E w = Some (Inr (), w')"
proof (induction k arbitrary: w)
  case 0
  then show ?case by (simp add: main_loop_while_exit)
next
  case (Suc k)
  from Suc.prems(1) obtain w1 w2 where c: "main_loop_cond E w = (Inr True, w1)"
    and b: "main_loop_body E w1 = (Inr (), w2)" and n: "nth_check k E w2 = Some wk"
    by (auto split: prod.splits sum.splits if_splits)
  from n Suc.prems(2) have "main_loop_while E w2 = Some (Inr (), w')" by (rule Suc.IH)
  with c b show ?case by (simp add: main_loop_while_continue)
qed

lemma main_loop_while_returns_aux:
  assumes "main_loop_while E w = Some r"
  shows "fst r = Inr () \<longrightarrow>
           (\<exists>k wk. nth_check k E w = Some wk \<and> main_loop_cond E wk = (Inr False, snd r))"
  using assms
proof (induction rule: main_loop_while.raw_induct [rotated, consumes 1, case_names step])
  case (step loop E w r)
  note 1 = step.IH step.hyps
  show ?case
  proof (cases "main_loop_cond E w")
    case (Pair c w1)
    show ?thesis
    proof (cases c)
      case (Inl e)
      with Pair 1(2) show ?thesis by auto
    next
      case (Inr continue)
      show ?thesis
      proof (cases continue)
        case False
        with Pair Inr 1(2) have "fst r = Inr () \<and> main_loop_cond E w = (Inr False, snd r)" by auto
        then have "nth_check 0 E w = Some w \<and> main_loop_cond E w = (Inr False, snd r)" by simp
        then show ?thesis by blast
      next
        case True
        obtain rb w2 where body: "main_loop_body E w1 = (rb, w2)" by (cases "main_loop_body E w1")
        show ?thesis
        proof (cases rb)
          case (Inl e)
          with Pair \<open>c = Inr continue\<close> True body 1(2) have "r = (Inl e, w2)" by simp
          then show ?thesis by simp
        next
          case (Inr u)
          with Pair \<open>c = Inr continue\<close> True body 1(2) have l: "loop E w2 = Some r" by simp
          show ?thesis
          proof
            assume "fst r = Inr ()"
            with 1(1) [OF l] obtain k wk where "nth_check k E w2 = Some wk"
              and "main_loop_cond E wk = (Inr False, snd r)" by blast
            with Pair \<open>c = Inr continue\<close> True body Inr
            have "nth_check (Suc k) E w = Some wk \<and> main_loop_cond E wk = (Inr False, snd r)"
              by simp
            then show "\<exists>k wk. nth_check k E w = Some wk \<and> main_loop_cond E wk = (Inr False, snd r)"
              by blast
          qed
        qed
      qed
    qed
  qed
qed

lemma main_loop_while_returns:
  assumes "main_loop_while E w = Some (Inr (), w')"
  shows "\<exists>k wk. nth_check k E w = Some wk \<and> main_loop_cond E wk = (Inr False, w')"
  using main_loop_while_returns_aux [OF assms] by simp


lemma wait_on_sunrise_loop_returns_aux:
  assumes "wait_on_sunrise_loop E w = Some r"
  shows "\<exists>wk. fst (is_online E wk) = map_sum id (\<lambda>u. True) (fst r) \<and> snd (is_online E wk) = snd r"
  using assms
proof (induction rule: wait_on_sunrise_loop.raw_induct [rotated, consumes 1, case_names step])
  case (step loop E w r)
  obtain c w1 where o: "is_online E w = (c, w1)" by (cases "is_online E w")
  show ?case
  proof (cases c)
    case (Inl e)
    with o step.hyps have "r = (Inl e, w1)" by simp
    with o Inl have "fst (is_online E w) = map_sum id (\<lambda>u. True) (fst r) \<and> snd (is_online E w) = snd r"
      by simp
    then show ?thesis by blast
  next
    case (Inr on)
    show ?thesis
    proof (cases on)
      case True
      with o Inr step.hyps have "r = (Inr (), w1)" by simp
      with o Inr True
      have "fst (is_online E w) = map_sum id (\<lambda>u. True) (fst r) \<and> snd (is_online E w) = snd r"
        by simp
      then show ?thesis by blast
    next
      case False
      with o Inr step.hyps have "loop E (sleep 600 w1) = Some r" by simp
      then show ?thesis by (rule step.IH)
    qed
  qed
qed

lemma wait_on_sunrise_returns:
  assumes "wait_on_sunrise E w = Some (Inr (), w3)"
  shows "\<exists>wk. is_online E wk = (Inr True, w3)"
proof -
  from assms have "wait_on_sunrise_loop E (log_info ''Waiting for sunrise...'' w) = Some (Inr (), w3)"
    by (simp add: wait_on_sunrise_def)
  from wait_on_sunrise_loop_returns_aux [OF this]
  obtain wk where "fst (is_online E wk) = Inr True" "snd (is_online E wk) = w3" by auto
  then have "is_online E wk = (Inr True, w3)" by (simp add: prod_eq_iff)
  then show ?thesis ..
qed

lemma main_loop_body_catches:
  assumes "morning_check E w = (Inr u, w1)"
  shows "main_loop_body E w =
           (Inr (), sleep 600 (case poll E w1 of
                                 (Inl e, w2) \<Rightarrow> log_exception ''An exception occurred in the main loop.'' w2
                               | (Inr u2, w2) \<Rightarrow> w2))"
  using assms by (simp add: main_loop_body_def split: prod.splits sum.splits)

text \<open>
  C1, as amended: an evaluation of the loop condition that reads the inverter count
  leaves the loop exactly when the count is not positive and it is past noon, and goes
  through the body otherwise, in particular whenever it is not past noon; and a loop
  that ends normally does so at the first evaluation of its condition that finds both.
\<close>

theorem main_loop_exit:
  "(get_mi_online E w = (Inr n, w1) \<longrightarrow>
      (n \<le> 0 \<and> 12 < hour (clock E (moment w1)) \<longrightarrow>
         main_loop_while E w = Some (Inr (), emit Now w1)) \<and>
      (\<not> (n \<le> 0 \<and> 12 < hour (clock E (moment w1))) \<longrightarrow>
         main_loop_while E w =
           (case main_loop_body E (if 0 < n then w1 else emit Now w1) of
              (Inl e, w2) \<Rightarrow> Some (Inl e, w2)
            | (Inr u, w2) \<Rightarrow> main_loop_while E w2))) \<and>
   (main_loop_while E w = Some (Inr (), w') \<longrightarrow>
      (\<exists>k wk m wm. nth_check k E w = Some wk \<and> get_mi_online E wk = (Inr m, wm) \<and>
         m \<le> 0 \<and> 12 < hour (clock E (moment wm)) \<and> w' = emit Now wm)) \<and>
   (main_loop E w = Some (Inr (), w'') \<longrightarrow>
      (\<exists>w'. main_loop_while E (log_info ''Entering main loop'' w) = Some (Inr (), w') \<and>
         w'' = log_info ''Solar system is offline. Signing off for the night.'' w'))"
proof (intro conjI impI)
  assume "get_mi_online E w = (Inr n, w1)" and "n \<le> 0 \<and> 12 < hour (clock E (moment w1))"
  then have "main_loop_cond E w = (Inr False, emit Now w1)"
    by (simp add: main_loop_cond_read)
  then show "main_loop_while E w = Some (Inr (), emit Now w1)"
    by (rule main_loop_while_exit)
next
  assume "get_mi_online E w = (Inr n, w1)" and "\<not> (n \<le> 0 \<and> 12 < hour (clock E (moment w1)))"
  then have "main_loop_cond E w = (Inr True, if 0 < n then w1 else emit Now w1)"
    by (auto simp: main_loop_cond_read)
  then show "main_loop_while E w =
           (case main_loop_body E (if 0 < n then w1 else emit Now w1) of
              (Inl e, w2) \<Rightarrow> Some (Inl e, w2)
            | (Inr u, w2) \<Rightarrow> main_loop_while E w2)"
    by (rule main_loop_while_continue)
next
  assume "main_loop_while E w = Some (Inr (), w')"
  then obtain k wk where k: "nth_check k E w = Some wk"
    and c: "main_loop_cond E wk = (Inr False, w')"
    using main_loop_while_returns by blast
  from c obtain m wm where "get_mi_online E wk = (Inr m, wm)"
    and "False = (0 < m \<or> \<not> 12 < hour (clock E (moment wm)))"
    and "w' = (if 0 < m then wm else emit Now wm)"
    by (rule main_loop_cond_cases)
  with k show "\<exists>k wk m wm. nth_check k E w = Some wk \<and> get_mi_online E wk = (Inr m, wm) \<and>
         m \<le> 0 \<and> 12 < hour (clock E (moment wm)) \<and> w' = emit Now wm"
    by (intro exI [of _ k] exI [of _ wk] exI [of _ m] exI [of _ wm]) auto
next
  assume "main_loop E w = Some (Inr (), w'')"
  then show "\<exists>w'. main_loop_while E (log_info ''Entering main loop'' w) = Some (Inr (), w') \<and>
         w'' = log_info ''Solar system is offline. Signing off for the night.'' w'"
    by (auto simp: main_loop_def and_then_def split: option.splits sum.splits prod.splits)
qed

text \<open>
  C4: \<open>run\<close> asks once whether the reader is online. If so it goes to \<open>main_loop\<close> at
  once; if not and it is not past noon it goes to \<open>wait_on_sunrise\<close>, which comes back
  only from an \<open>is_online\<close> that said yes, and then to \<open>main_loop\<close>; if not and it is past
  noon it logs that it was started after sunset and ends, with no further effect.
\<close>

theorem run_startup_decision:
  assumes "is_online E (log_info ''Started, initializing...'' w) = (Inr on, w1)"
    and "finish = (\<lambda>u w4. Some (Inr (), log_info ''Run call ending, program terminating.'' w4))"
  shows "(on \<longrightarrow>
            run E w = and_then (main_loop E (log_info ''Solar system online on startup.'' w1)) finish) \<and>
         (\<not> on \<and> \<not> 12 < hour (clock E (moment w1)) \<longrightarrow>
            run E w =
              and_then
                (and_then (wait_on_sunrise E (emit Now w1))
                   (\<lambda>u w3. main_loop E
                      (log_info ''Microinverters have started, seems like sunrise. Main loop starting.'' w3)))
                finish \<and>
            (\<forall>w3. wait_on_sunrise E (emit Now w1) = Some (Inr (), w3) \<longrightarrow>
                  (\<exists>wk. is_online E wk = (Inr True, w3)))) \<and>
         (\<not> on \<and> 12 < hour (clock E (moment w1)) \<longrightarrow>
            run E w =
              Some (Inr (), log_info ''Run call ending, program terminating.''
                      (log_warning ''Program was started after sunset. Shutting down.'' (emit Now w1))))"
  using assms
  by (auto simp: run_def is_past_noon_def and_then_def wait_on_sunrise_returns)

subsection \<open>Whole days on the small device\<close>

lemma is_past_noon_varying:
  "is_past_noon (varying_env home production h) (reader_at tr) = (12 < h (length tr), reader_at (tr @ [Now]))"
  by (simp add: is_past_noon_def moment_reader_at reader_at_emit) (simp add: varying_env_def)

lemma is_online_varying:
  "is_online (varying_env home production h) (reader_at tr) =
     (case py_int (home (Suc (length tr))) of
        Inl e \<Rightarrow> (Inl e, reader_at (tr @ [Log INFO ''Determining current solar cell status...'',
                                             Get ''http://10.0.0.5/home'' None]))
      | Inr n \<Rightarrow> (Inr (0 < n), reader_at (tr @ read_count (str_int n))))"
  by (simp add: is_online_def get_mi_online_device read_count_def split: sum.splits)

lemma get_mi_online_varying:
  "get_mi_online (varying_env home production h) (reader_at tr) =
     (case py_int (home (Suc (length tr))) of
        Inl e \<Rightarrow> (Inl e, reader_at (tr @ [Log INFO ''Determining current solar cell status...'',
                                             Get ''http://10.0.0.5/home'' None]))
      | Inr n \<Rightarrow> (Inr n, reader_at (tr @ read_count (str_int n))))"
  by (simp add: get_mi_online_device read_count_def split: sum.splits)

lemma sheet_update_row_varying:
  "sheet_update_row (varying_env home production h) a b c (reader_at tr) =
     (Inr (), reader_at (tr @ [UpdateRow a b c]))"
  by (simp add: sheet_update_row_def reader_at_emit) (simp add: varying_env_def)

lemma str_int_small:
  "str_int 0 = ''0''" "str_int 3 = ''3''" "str_int 5 = ''5''" "str_int (- 1) = ''-1''"
  by (simp_all add: str_int_def str_nat.simps)

lemma py_int_3: "py_int ''3'' = Inr 3" by (simp add: py_int_eval)

lemma length_read_count: "length (read_count c) = 3"
  by (simp add: read_count_def)

lemma length_morning_pass: "length morning_pass = 12"
  by (simp add: morning_pass_def length_read_count)

lemmas runner_eval = main_loop_cond_def morning_check_def poll_def main_loop_body_def
  is_past_noon_varying is_online_varying get_mi_online_varying sheet_update_row_varying
  wh_850_15 watt_850_15 py_int_0 py_int_3 py_int_5 py_int_minus_1 py_int_na str_int_small
  log_error_def log_exception_def log_info_def log_warning_def sleep_def reader_at_emit
  length_read_count length_morning_pass

lemma dusk_count:
  "get_mi_online dusk_env (reader_at tr) = (Inr 0, reader_at (tr @ read_count ''0''))"
  by (simp add: dusk_env_def runner_eval)

lemma dusk_hour:
  "hour (clock dusk_env m) = (if m < 10 then 10 else 13)"
  by (simp add: dusk_env_def varying_env_def)

lemma dusk_body:
  assumes "length tr \<le> 5"
  shows "main_loop_body dusk_env (reader_at tr) = (Inr (), reader_at (tr @ morning_pass))"
  using assms by (simp add: dusk_env_def runner_eval morning_pass_def)

theorem main_loop_exit_witness:
  "get_mi_online dusk_env (reader_at []) = (Inr 0, reader_at (read_count ''0'')) \<and>
   \<not> 12 < hour (clock dusk_env (moment (reader_at (read_count ''0'')))) \<and>
   nth_check 1 dusk_env (reader_at []) = Some (reader_at (read_count ''0'' @ Now # morning_pass)) \<and>
   12 < hour (clock dusk_env (moment (reader_at (read_count ''0'' @ Now # morning_pass @ read_count ''0'')))) \<and>
   main_loop_while dusk_env (reader_at []) =
     Some (Inr (), reader_at (read_count ''0'' @ Now # morning_pass @ read_count ''0'' @ [Now])) \<and>
   main_loop dusk_env (reader_at []) =
     Some (Inr (), reader_at (Log INFO ''Entering main loop'' # read_count ''0'' @ Now # morning_pass @
             read_count ''0'' @ [Now, Log INFO ''Solar system is offline. Signing off for the night.''])) \<and>
   (\<exists>k wk m wm. nth_check k dusk_env (reader_at []) = Some wk \<and>
      get_mi_online dusk_env wk = (Inr m, wm) \<and> m \<le> 0 \<and> 12 < hour (clock dusk_env (moment wm)) \<and>
      reader_at (read_count ''0'' @ Now # morning_pass @ read_count ''0'' @ [Now]) = emit Now wm) \<and>
   (\<exists>w'. main_loop_while dusk_env (log_info ''Entering main loop'' (reader_at [])) = Some (Inr (), w') \<and>
      reader_at (Log INFO ''Entering main loop'' # read_count ''0'' @ Now # morning_pass @
             read_count ''0'' @ [Now, Log INFO ''Solar system is offline. Signing off for the night.'']) =
        log_info ''Solar system is offline. Signing off for the night.'' w')"
proof -
  have loop: "main_loop_while dusk_env (reader_at tr) =
      Some (Inr (), reader_at (tr @ read_count ''0'' @ Now # morning_pass @ read_count ''0'' @ [Now]))"
    if "length tr \<le> 1" for tr
  proof -
    have "main_loop_while dusk_env (reader_at tr) =
            main_loop_while dusk_env (reader_at (tr @ read_count ''0'' @ Now # morning_pass))"
      using main_loop_exit [of dusk_env "reader_at tr" 0 "reader_at (tr @ read_count ''0'')"] that
      by (simp add: dusk_count dusk_hour moment_reader_at length_read_count reader_at_emit dusk_body)
    also have "\<dots> = Some (Inr (), reader_at (tr @ read_count ''0'' @ Now # morning_pass @ read_count ''0'' @ [Now]))"
      using main_loop_exit [of dusk_env "reader_at (tr @ read_count ''0'' @ Now # morning_pass)" 0
          "reader_at (tr @ read_count ''0'' @ Now # morning_pass @ read_count ''0'')"]
      by (simp add: dusk_count dusk_hour moment_reader_at length_read_count length_morning_pass
          reader_at_emit)
    finally show ?thesis .
  qed
  have "nth_check 1 dusk_env (reader_at []) = Some (reader_at (read_count ''0'' @ Now # morning_pass))"
    by (simp add: main_loop_cond_read [OF dusk_count] dusk_hour moment_reader_at length_read_count
        reader_at_emit dusk_body)
  moreover have "main_loop dusk_env (reader_at []) =
     Some (Inr (), reader_at (Log INFO ''Entering main loop'' # read_count ''0'' @ Now # morning_pass @
             read_count ''0'' @ [Now, Log INFO ''Solar system is offline. Signing off for the night.'']))"
    using loop [of "[Log INFO ''Entering main loop'']"]
    by (simp add: main_loop_def and_then_def log_info_def reader_at_emit)
  ultimately show ?thesis
    using loop [of "[]"]
      main_loop_exit [of dusk_env "reader_at []" 0 "reader_at (read_count ''0'')"
        "reader_at (read_count ''0'' @ Now # morning_pass @ read_count ''0'' @ [Now])"
        "reader_at (Log INFO ''Entering main loop'' # read_count ''0'' @ Now # morning_pass @
             read_count ''0'' @ [Now, Log INFO ''Solar system is offline. Signing off for the night.''])"]
    by (simp add: dusk_count dusk_hour moment_reader_at length_read_count length_morning_pass)
qed

text \<open>
  C1 as stated fails for a negative count: with the count \<open>-1\<close> read after noon the
  loop ends, although the count is not 0.
\<close>

theorem exit_with_negative_count:
  "fst (get_mi_online (device_env ''-1'' [] 13) (reader_at [])) = Inr (- 1) \<and> (- 1 :: int) \<noteq> 0 \<and>
   main_loop_while (device_env ''-1'' [] 13) (reader_at []) =
     Some (Inr (), reader_at (read_count ''-1'' @ [Now]))"
proof -
  have "main_loop_cond (device_env ''-1'' [] 13) (reader_at []) =
          (Inr False, reader_at (read_count ''-1'' @ [Now]))"
    by (simp add: device_env_def runner_eval)
  then have "main_loop_while (device_env ''-1'' [] 13) (reader_at []) =
     Some (Inr (), reader_at (read_count ''-1'' @ [Now]))"
    by (rule main_loop_while_exit)
  then show ?thesis
    by (simp add: device_env_def get_mi_online_varying py_int_minus_1)
qed


lemma main_loop_while_raises:
  "is_online E w = (Inl e, w1) \<Longrightarrow> main_loop_while E w = Some (Inl e, w1)"
  by (rule main_loop_while_raise) (simp add: main_loop_cond_def)

lemma dead_get_response:
  "get_response dead_env path (reader_at tr) =
     (Inl (RuntimeError ''A seemingly valid IP address failed.''),
      after_probes (reader_at (tr @ [Get (''http://10.0.0.5'' @ path) None])) 256)"
proof -
  have "get_ip_address dead_env (reader_at (tr @ [Get (''http://10.0.0.5'' @ path) None])) =
          (Inr None, after_probes (reader_at (tr @ [Get (''http://10.0.0.5'' @ path) None])) 256)"
    by (rule get_ip_address_none) (simp_all add: reader_at_fields dead_probe)
  then show ?thesis
    by (simp add: get_response_def requests_get_def moved_first_get reader_at_fields
        is_ConnectionError_def reader_at_emit)
qed

text \<open>
  C3: an error raised by \<open>is_online\<close> in the loop condition is outside the \<open>try\<close>, so
  it ends \<open>main_loop\<close>: the \<open>ValueError\<close> of \<open>int\<close> when, after a complete cycle, the home
  page shows a count that is not a number, and the \<open>RuntimeError\<close> of \<open>get_response\<close>
  when no device answers on the network.
\<close>

theorem main_loop_ended_by_error_in_condition:
  "main_loop glitch_env (reader_at []) =
     Some (Inl ValueError,
           reader_at (Log INFO ''Entering main loop'' # read_count ''5'' @
             Now # Get ''http://10.0.0.5/production'' None # read_count ''5'' @
             [Get ''http://10.0.0.5/production'' None, UpdateRow 1500 5 (Finite 850), Sleep 600,
              Log INFO ''Determining current solar cell status...'',
              Get ''http://10.0.0.5/home'' None])) \<and>
   main_loop dead_env (reader_at []) =
     Some (Inl (RuntimeError ''A seemingly valid IP address failed.''),
           after_probes (reader_at [Log INFO ''Entering main loop'',
                                    Log INFO ''Determining current solar cell status...'',
                                    Get ''http://10.0.0.5/home'' None]) 256)"
proof -
  have "main_loop_while glitch_env (reader_at [Log INFO ''Entering main loop'']) =
     Some (Inl ValueError,
           reader_at (Log INFO ''Entering main loop'' # read_count ''5'' @
             Now # Get ''http://10.0.0.5/production'' None # read_count ''5'' @
             [Get ''http://10.0.0.5/production'' None, UpdateRow 1500 5 (Finite 850), Sleep 600,
              Log INFO ''Determining current solar cell status...'',
              Get ''http://10.0.0.5/home'' None]))"
    by (subst main_loop_while.simps, simp add: glitch_env_def runner_eval,
        subst main_loop_while.simps, simp add: glitch_env_def runner_eval)
  moreover have "is_online dead_env (reader_at [Log INFO ''Entering main loop'']) =
     (Inl (RuntimeError ''A seemingly valid IP address failed.''),
           after_probes (reader_at [Log INFO ''Entering main loop'',
                                    Log INFO ''Determining current solar cell status...'',
                                    Get ''http://10.0.0.5/home'' None]) 256)"
    by (simp add: is_online_def get_mi_online_def log_info_def reader_at_emit dead_get_response)
  then have "main_loop_while dead_env (reader_at [Log INFO ''Entering main loop'']) =
     Some (Inl (RuntimeError ''A seemingly valid IP address failed.''),
           after_probes (reader_at [Log INFO ''Entering main loop'',
                                    Log INFO ''Determining current solar cell status...'',
                                    Get ''http://10.0.0.5/home'' None]) 256)"
    by (rule main_loop_while_raises)
  ultimately show ?thesis
    by (simp add: main_loop_def and_then_def log_info_def reader_at_emit)
qed

lemma late_main_loop:
  assumes "5 \<le> length tr"
  shows "main_loop late_env (reader_at tr) =
     Some (Inr (), reader_at (tr @ Log INFO ''Entering main loop'' # read_count ''0'' @
             [Now, Log INFO ''Solar system is offline. Signing off for the night.'']))"
proof -
  have "main_loop_cond late_env (reader_at (tr @ [Log INFO ''Entering main loop''])) =
          (Inr False, reader_at (tr @ Log INFO ''Entering main loop'' # read_count ''0'' @ [Now]))"
    using assms by (simp add: late_env_def runner_eval)
  then have "main_loop_while late_env (reader_at (tr @ [Log INFO ''Entering main loop''])) =
          Some (Inr (), reader_at (tr @ Log INFO ''Entering main loop'' # read_count ''0'' @ [Now]))"
    by (rule main_loop_while_exit)
  then show ?thesis
    by (simp add: main_loop_def and_then_def log_info_def reader_at_emit)
qed

lemma day_wait:
  "wait_on_sunrise day_env (reader_at (Log INFO ''Started, initializing...'' # read_count ''0'' @ [Now])) =
     Some (Inr (), reader_at (Log INFO ''Started, initializing...'' # read_count ''0'' @
             [Now, Log INFO ''Waiting for sunrise...''] @ read_count ''0'' @ Sleep 600 # read_count ''3''))"
  unfolding wait_on_sunrise_def
  by (subst wait_on_sunrise_loop.simps, simp add: day_env_def runner_eval,
      subst wait_on_sunrise_loop.simps, simp add: day_env_def runner_eval)


lemma day_main_loop:
  "main_loop day_env (reader_at (Log INFO ''Started, initializing...'' # read_count ''0'' @
             [Now, Log INFO ''Waiting for sunrise...''] @ read_count ''0'' @ Sleep 600 # read_count ''3'' @
             [Log INFO ''Microinverters have started, seems like sunrise. Main loop starting.''])) =
     Some (Inr (), reader_at (butlast day_trace))"
  unfolding main_loop_def
  by (subst main_loop_while.simps, simp add: day_env_def runner_eval,
      subst main_loop_while.simps,
      simp add: day_env_def runner_eval and_then_def day_trace_def read_count_def)

lemma started: "log_info ''Started, initializing...'' (reader_at []) = reader_at [Log INFO ''Started, initializing...'']"
  by (simp add: log_info_def reader_at_emit)

theorem run_startup_decision_witness:
  "run late_env (reader_at []) = Some (Inr (), reader_at late_trace) \<and>
   Log INFO ''Waiting for sunrise...'' \<notin> set late_trace \<and>
   run day_env (reader_at []) = Some (Inr (), reader_at day_trace) \<and>
   run (device_env ''0'' ''850 W;1.5 kW'' 13) (reader_at []) = Some (Inr (), reader_at night_trace) \<and>
   Log INFO ''Entering main loop'' \<notin> set night_trace"
proof -
  have late_online: "is_online late_env (log_info ''Started, initializing...'' (reader_at [])) =
      (Inr True, reader_at (Log INFO ''Started, initializing...'' # read_count ''5''))"
    by (simp add: started late_env_def runner_eval)
  have "main_loop late_env (reader_at ((Log INFO ''Started, initializing...'' # read_count ''5'') @
            [Log INFO ''Solar system online on startup.''])) =
          Some (Inr (), reader_at (butlast late_trace))"
    by (subst late_main_loop) (simp_all add: length_read_count late_trace_def read_count_def)
  with run_startup_decision [OF late_online refl]
  have late: "run late_env (reader_at []) = Some (Inr (), reader_at late_trace)"
    by (simp add: and_then_def log_info_def reader_at_emit)
       (simp add: late_trace_def read_count_def)
  have day_offline: "is_online day_env (log_info ''Started, initializing...'' (reader_at [])) =
      (Inr False, reader_at (Log INFO ''Started, initializing...'' # read_count ''0''))"
    by (simp add: started day_env_def runner_eval)
  have day_morning: "\<not> 12 < hour (clock day_env
      (moment (reader_at (Log INFO ''Started, initializing...'' # read_count ''0''))))"
    by (simp add: moment_reader_at length_read_count day_env_def varying_env_def)
  from run_startup_decision [OF day_offline refl] day_morning day_wait day_main_loop
  have day: "run day_env (reader_at []) = Some (Inr (), reader_at day_trace)"
    by (simp add: and_then_def log_info_def reader_at_emit)
       (simp add: day_trace_def read_count_def)
  have night_offline: "is_online (device_env ''0'' ''850 W;1.5 kW'' 13)
        (log_info ''Started, initializing...'' (reader_at [])) =
      (Inr False, reader_at (Log INFO ''Started, initializing...'' # read_count ''0''))"
    by (simp add: started device_env_def runner_eval)
  have night_late: "12 < hour (clock (device_env ''0'' ''850 W;1.5 kW'' 13)
      (moment (reader_at (Log INFO ''Started, initializing...'' # read_count ''0''))))"
    by (simp add: device_env_def varying_env_def)
  from run_startup_decision [OF night_offline refl] night_late
  have night: "run (device_env ''0'' ''850 W;1.5 kW'' 13) (reader_at []) = Some (Inr (), reader_at night_trace)"
    by (simp add: log_info_def log_warning_def reader_at_emit night_trace_def)
  from late day night show ?thesis
    by (simp add: late_trace_def night_trace_def read_count_def)
qed

end
